theory Spec2Isabelle
  imports Complex_Main
begin

section \<open>Numbers, failures and printed messages\<close>

text \<open>
  The program (\<^verbatim>\<open>pandora_cf_sfcno2.py\<close>) computes with Python and numpy floats. The
  model computes with \<^typ>\<open>real\<close>: rounding is not modelled. Where the source divides
  by zero, numpy yields \<open>inf\<close> or \<open>nan\<close> and execution goes on; no real number stands
  for that value, so the model stops there with \<open>NonFinite\<close>. The other failures are
  the exceptions the Python raises.
\<close>

datatype error =
    IndexError
  | KeyError
  | ValueError
  | AttributeError
  | AssertionError
  | FileNotFoundError string
  | BadFile string            \<comment> \<open>a file of another kind than the reader wants\<close>
  | NonFinite

type_synonym path = string

text \<open>What the program prints, and the files it opens, reads and writes, in order.\<close>

datatype event =
    Msg_obs_missing path      \<comment> \<open>\<^verbatim>\<open>obs file does not exist, skip: {}\<close>\<close>
  | Msg_out_exists path       \<comment> \<open>\<^verbatim>\<open>file exists, don't do anything: {}\<close>\<close>
  | Msg_written path          \<comment> \<open>\<^verbatim>\<open>data written to {}\<close>\<close>
  | Msg_not_found path        \<comment> \<open>\<^verbatim>\<open>Warning - file not found: {}\<close>\<close>
  | Msg_reading path          \<comment> \<open>\<^verbatim>\<open>reading {}\<close> and \<^verbatim>\<open>Reading {}\<close>\<close>
  | Msg_layer_height real     \<comment> \<open>\<^verbatim>\<open>Warning: Pandora layer height greater than entire atmosphere: {}\<close>\<close>
  | Msg_latitude real         \<comment> \<open>\<^verbatim>\<open>location latitude: {}\<close>\<close>
  | Msg_longitude real        \<comment> \<open>\<^verbatim>\<open>location longitude: {}\<close>\<close>
  | Io_open_dataset path      \<comment> \<open>\<^verbatim>\<open>xr.open_dataset\<close>\<close>
  | Io_read_obs path          \<comment> \<open>\<^verbatim>\<open>pd.read_csv\<close> and \<^verbatim>\<open>open(ifile,'rb')\<close>\<close>
  | Io_to_csv path            \<comment> \<open>\<^verbatim>\<open>DataFrame.to_csv\<close>\<close>

section \<open>The partial-column integration loop (\<^verbatim>\<open>_match_cf\<close>, lines 183 to 200)\<close>

definition VV_TO_MOLEC :: real where
  "VV_TO_MOLEC = 1000 / (9.80665 * 28.9644)"

text \<open>
  The four per-layer arrays of lines 179 to 182, already reversed (\<^verbatim>\<open>[0,::-1]\<close>), so
  that index 0 is the layer at the surface.
\<close>

record profile =
  delp :: "real list"
  zl :: "real list"
  q :: "real list"
  no2 :: "real list"

text \<open>The variables of the loop, and what it has printed.\<close>

record loop_state =
  inML :: bool
  iL :: nat
  l1col :: real
  out :: "event list"

text \<open>
  Lines 188 to 193: \<^verbatim>\<open>toph\<close>, \<^verbatim>\<open>both\<close> and \<^verbatim>\<open>frac\<close> of layer \<open>i\<close>. Reading
  \<^verbatim>\<open>zl[iL+1]\<close> past the end of the array raises \<open>IndexError\<close>; \<^verbatim>\<open>zl[iL-1]\<close> is read
  only when \<^verbatim>\<open>iL>0\<close>.
\<close>

definition layer_frac :: "real list \<Rightarrow> real \<Rightarrow> nat \<Rightarrow> error + real" where
  "layer_frac z ihgt i =
     (if length z \<le> i + 1 then Inl IndexError
      else
        let toph = (z ! i + z ! (i + 1)) / 2 in
        if toph > ihgt then
          let both = (if i > 0 then (z ! i + z ! (i - 1)) / 2 else 0) in
          if toph - both = 0 then Inl NonFinite
          else Inr ((ihgt - both) / (toph - both))
        else Inr 1)"

text \<open>
  One pass through the body of \<^verbatim>\<open>while inML\<close> (lines 187 to 200). Line 200 reads
  \<^verbatim>\<open>inML: False\<close>, an annotation and not an assignment: it changes nothing, so the
  branch of line 198 only prints.
\<close>

definition loop_body :: "profile \<Rightarrow> real \<Rightarrow> loop_state \<Rightarrow> error + loop_state" where
  "loop_body p ihgt s =
     (case layer_frac (zl p) ihgt (iL s) of
        Inl e \<Rightarrow> Inl e
      | Inr frac' \<Rightarrow>
          if length (no2 p) \<le> iL s \<or> length (delp p) \<le> iL s \<or> length (q p) \<le> iL s
          then Inl IndexError
          else
            Inr \<lparr> inML = (if frac' < 1 then False else inML s),
                  iL = iL s + 1,
                  l1col = l1col s
                    + no2 p ! iL s * delp p ! iL s * (1 - q p ! iL s) * VV_TO_MOLEC * frac',
                  out = (if iL s + 1 \<ge> length (zl p) + 1
                         then out s @ [Msg_layer_height ihgt] else out s) \<rparr>)"

function while_inML :: "profile \<Rightarrow> real \<Rightarrow> loop_state \<Rightarrow> error + loop_state" where
  "while_inML p ihgt s =
     (if inML s then
        (case loop_body p ihgt s of
           Inl e \<Rightarrow> Inl e
         | Inr s' \<Rightarrow> while_inML p ihgt s')
      else Inr s)"
  by pat_completeness auto
termination
proof (relation "measure (\<lambda>(p, ihgt, s). length (zl p) - iL s)")
  show "wf (measure (\<lambda>(p, ihgt, s). length (zl p) - iL s))" by simp
next
  fix p :: profile and ihgt :: real and s s' :: loop_state
  assume "inML s" and "loop_body p ihgt s = Inr s'"
  then have "iL s' = iL s + 1 \<and> iL s + 1 < length (zl p)"
    by (auto simp: loop_body_def layer_frac_def Let_def split: sum.splits if_splits)
  then show "((p, ihgt, s'), (p, ihgt, s)) \<in> measure (\<lambda>(p, ihgt, s). length (zl p) - iL s)"
    by auto
qed

declare while_inML.simps [simp del]

text \<open>Lines 183 to 185: the state in which the loop is entered.\<close>

definition loop_init :: loop_state where
  "loop_init = \<lparr> inML = True, iL = 0, l1col = 0, out = [] \<rparr>"

definition partial_column :: "profile \<Rightarrow> real \<Rightarrow> error + loop_state" where
  "partial_column p ihgt = while_inML p ihgt loop_init"

text \<open>
  The first \<open>k\<close> passes of the loop (fewer when it has stopped): the state after them
  holds the running sum.
\<close>

fun loop_steps :: "nat \<Rightarrow> profile \<Rightarrow> real \<Rightarrow> loop_state \<Rightarrow> error + loop_state" where
  "loop_steps 0 p ihgt s = Inr s"
| "loop_steps (Suc k) p ihgt s =
     (if inML s then
        (case loop_body p ihgt s of
           Inl e \<Rightarrow> Inl e
         | Inr s' \<Rightarrow> loop_steps k p ihgt s')
      else Inr s)"

declare loop_steps.simps [simp del]

section \<open>Unit conversions (\<^verbatim>\<open>_match_cf\<close>, lines 175, 176 and 203)\<close>

text \<open>Line 175: the surface mixing ratio in ppbv.\<close>

definition sfcmr_of :: "real \<Rightarrow> real" where
  "sfcmr_of iconc = iconc * 10 ^ 9"

text \<open>Line 176: the surface concentration in mol/m3.\<close>

definition sfcconc_of :: "real \<Rightarrow> real \<Rightarrow> real \<Rightarrow> real" where
  "sfcconc_of iconc prs temp = iconc * prs / (8.314 * temp)"

text \<open>
  Line 203: the reported surface concentration as a mixing ratio in ppbv, dried out
  (``Inverse of the GEOS-CF conversion above. Also dry out.'').
\<close>

definition sfcmr_pandora_of :: "real \<Rightarrow> real \<Rightarrow> real \<Rightarrow> real \<Rightarrow> real" where
  "sfcmr_pandora_of sfcconc prs temp q0 = sfcconc / prs * (8.314 * temp) * 10 ^ 9 / (1 - q0)"

section \<open>Strings\<close>

text \<open>\<^verbatim>\<open>s.split(c)\<close> for a separator of one character: never the empty list.\<close>

fun split_on :: "char \<Rightarrow> string \<Rightarrow> string list" where
  "split_on c [] = [[]]"
| "split_on c (x # xs) =
     (if x = c then [] # split_on c xs
      else (case split_on c xs of
              [] \<Rightarrow> [[x]]
            | w # ws \<Rightarrow> (x # w) # ws))"

text \<open>
  \<^verbatim>\<open>s.replace(old, new)\<close>: every occurrence, from the left, without overlap. The
  program only calls it with a non-empty \<open>old\<close>; with an empty one the model leaves the
  string as it is.
\<close>

function replace_all :: "string \<Rightarrow> string \<Rightarrow> string \<Rightarrow> string" where
  "replace_all old new [] = []"
| "replace_all old new (x # xs) =
     (if old \<noteq> [] \<and> take (length old) (x # xs) = old
      then new @ replace_all old new (drop (length old) (x # xs))
      else x # replace_all old new xs)"
  by pat_completeness auto
termination
  by (relation "measure (\<lambda>(old, new, s). length s)") auto

text \<open>\<^verbatim>\<open>sub in s\<close>.\<close>

fun contains :: "string \<Rightarrow> string \<Rightarrow> bool" where
  "contains sub [] = (sub = [])"
| "contains sub (x # xs) = (take (length sub) (x # xs) = sub \<or> contains sub xs)"

text \<open>
  \<^verbatim>\<open>str(b)\<close> of a bytes object: its literal, \<^verbatim>\<open>b'...'\<close>, with the line feed written as
  backslash and \<open>n\<close>. The model covers lines of printable ASCII with carriage return,
  tab, backslash and quote escaped; other bytes stand for themselves.
\<close>

definition escape_byte :: "char \<Rightarrow> string" where
  "escape_byte c =
     (if c = CHR 0x0A then [CHR 0x5C, CHR ''n'']
      else if c = CHR 0x0D then [CHR 0x5C, CHR ''r'']
      else if c = CHR 0x09 then [CHR 0x5C, CHR ''t'']
      else if c = CHR 0x5C then [CHR 0x5C, CHR 0x5C]
      else if c = CHR 0x27 then [CHR 0x5C, CHR 0x27]
      else [c])"

definition py_str_bytes :: "string \<Rightarrow> string" where
  "py_str_bytes b = [CHR ''b'', CHR 0x27] @ concat (map escape_byte b) @ [CHR 0x27]"

text \<open>\<^verbatim>\<open>xs[i]\<close> with Python's negative indices.\<close>

definition py_index :: "'a list \<Rightarrow> int \<Rightarrow> error + 'a" where
  "py_index xs i =
     (if 0 \<le> i \<and> i < int (length xs) then Inr (xs ! nat i)
      else if i < 0 \<and> - int (length xs) \<le> i then Inr (xs ! nat (int (length xs) + i))
      else Inl IndexError)"

section \<open>Tables, datasets and files\<close>

text \<open>
  A time stamp is a number of microseconds since 1970-01-01 00:00, without time zone
  (the program's \<^verbatim>\<open>datetime\<close> values are naive).
\<close>

definition hour :: int where
  "hour = 3600000000"

definition day :: int where
  "day = 24 * hour"

text \<open>\<^verbatim>\<open>MINDATE=dt.datetime(2020,1,1)\<close>: 18262 days after 1970-01-01.\<close>

definition MINDATE :: int where
  "MINDATE = 18262 * day"

text \<open>
  \<^verbatim>\<open>Timestamp.round('H')\<close> of pandas: the nearest multiple of an hour, a tie going to
  the even multiple.
\<close>

definition round_H :: "int \<Rightarrow> int" where
  "round_H t =
     (let quotient = t div hour; remainder = t mod hour
      in if remainder > hour div 2 \<or> (remainder = hour div 2 \<and> odd quotient)
         then (quotient + 1) * hour else quotient * hour)"

text \<open>One row of the table \<^verbatim>\<open>pand\<close> that \<^verbatim>\<open>_read_pandora\<close> builds (line 222).\<close>

record row =
  date :: int
  pandora_no2_qval :: int
  pandora_no2_sfcconc :: real
  pandora_no2_l1hgt :: real
  pandora_no2_l1col :: real

text \<open>
  One row of the written table: the columns added at lines 64 to 68 (\<open>None\<close> is
  \<^verbatim>\<open>np.nan\<close>) and the columns \<^verbatim>\<open>lat\<close> and \<^verbatim>\<open>lon\<close> of lines 83 and 84.
\<close>

record merged = row +
  pandora_no2_sfcmr :: "real option"
  cf_no2_sfcmr :: "real option"
  cf_no2_sfcconc :: "real option"
  cf_no2_l1col :: "real option"
  cf_no2_pbl :: "real option"
  site_lat :: real
  site_lon :: real

text \<open>
  A GEOS-CF file, read through \<^verbatim>\<open>.sel(lon=lon,lat=lat,method='nearest')\<close> at time index
  0: a variable without levels gives a number, one with levels gives its column in the
  order of the file (the surface last). \<open>None\<close>: the file has no such variable.
\<close>

record dataset =
  surface :: "string \<Rightarrow> real \<Rightarrow> real \<Rightarrow> real option"
  levels :: "string \<Rightarrow> real \<Rightarrow> real \<Rightarrow> real list option"

datatype content =
    Text "string list"          \<comment> \<open>a text file, by lines\<close>
  | Json "string option list"   \<comment> \<open>the site list: of each entry, its \<^verbatim>\<open>pandora_url\<close>\<close>
  | NetCDF dataset
  | Csv "merged list"           \<comment> \<open>a table written by \<^verbatim>\<open>to_csv\<close>\<close>

type_synonym files = "path \<rightharpoonup> content"

record world =
  files :: files
  console :: "event list"
  today :: int                  \<comment> \<open>\<^verbatim>\<open>dt.datetime.today()\<close>\<close>

text \<open>
  The library functions the program calls on text, taken as parameters:
  \<^verbatim>\<open>strftime\<close>, \<^verbatim>\<open>strptime\<close> with the format of line 217, \<^verbatim>\<open>int\<close>, \<^verbatim>\<open>float\<close>
  (\<open>None\<close>: \<open>ValueError\<close>), and \<^verbatim>\<open>pd.read_csv(ifile,sep=',',skiprows=93)\<close>, which
  gives of every data row the field \<^verbatim>\<open>iline[0]\<close>.
\<close>

record pylib =
  strftime :: "int \<Rightarrow> string \<Rightarrow> string"
  strptime :: "string \<Rightarrow> int option"
  py_int :: "string \<Rightarrow> int option"
  py_float :: "string \<Rightarrow> real option"
  read_csv :: "string list \<Rightarrow> error + string list"

record args =
  locations :: path
  nsite :: int
  cf_template :: string
  pbl_template :: string

definition isfile :: "files \<Rightarrow> path \<Rightarrow> bool" where
  "isfile fs p \<longleftrightarrow> fs p \<noteq> None"

text \<open>\<^verbatim>\<open>xr.open_dataset\<close>: a missing file raises \<open>FileNotFoundError\<close>.\<close>

definition open_dataset :: "files \<Rightarrow> path \<Rightarrow> error + dataset" where
  "open_dataset fs p =
     (case fs p of
        None \<Rightarrow> Inl (FileNotFoundError p)
      | Some (NetCDF ds) \<Rightarrow> Inr ds
      | Some _ \<Rightarrow> Inl (BadFile p))"

definition read_text :: "files \<Rightarrow> path \<Rightarrow> error + string list" where
  "read_text fs p =
     (case fs p of
        None \<Rightarrow> Inl (FileNotFoundError p)
      | Some (Text ls) \<Rightarrow> Inr ls
      | Some _ \<Rightarrow> Inl (BadFile p))"

definition load_json :: "files \<Rightarrow> path \<Rightarrow> error + string option list" where
  "load_json fs p =
     (case fs p of
        None \<Rightarrow> Inl (FileNotFoundError p)
      | Some (Json ls) \<Rightarrow> Inr ls
      | Some _ \<Rightarrow> Inl (BadFile p))"

definition get_surface :: "dataset \<Rightarrow> string \<Rightarrow> real \<Rightarrow> real \<Rightarrow> error + real" where
  "get_surface ds var lo la =
     (case surface ds var lo la of None \<Rightarrow> Inl KeyError | Some v \<Rightarrow> Inr v)"

text \<open>\<^verbatim>\<open>.values[0,::-1]\<close>: the column, the surface first.\<close>

definition get_column :: "dataset \<Rightarrow> string \<Rightarrow> real \<Rightarrow> real \<Rightarrow> error + real list" where
  "get_column ds var lo la =
     (case levels ds var lo la of None \<Rightarrow> Inl KeyError | Some vs \<Rightarrow> Inr (rev vs))"

text \<open>\<^verbatim>\<open>.values[0,-1]\<close>: the value at the surface.\<close>

definition get_bottom :: "dataset \<Rightarrow> string \<Rightarrow> real \<Rightarrow> real \<Rightarrow> error + real" where
  "get_bottom ds var lo la =
     (case levels ds var lo la of
        None \<Rightarrow> Inl KeyError
      | Some vs \<Rightarrow> if vs = [] then Inl IndexError else Inr (last vs))"

section \<open>Matching one observation (\<^verbatim>\<open>_match_cf\<close>)\<close>

type_synonym fnl = "string \<rightharpoonup> path"
type_synonym dsl = "string \<rightharpoonup> dataset"

text \<open>
  Lines 147 to 156 and 159 to 168, and lines 132 to 144 once the file is known to be
  there: the dataset of collection \<open>col\<close>, from \<^verbatim>\<open>dsl\<close> when \<^verbatim>\<open>fnl[col]\<close> is the
  wanted path, otherwise opened and stored.
\<close>

definition cached_or_open ::
  "files \<Rightarrow> string \<Rightarrow> path \<Rightarrow> fnl \<Rightarrow> dsl \<Rightarrow> error + dataset \<times> fnl \<times> dsl \<times> event list" where
  "cached_or_open fs col ifile fnl dsl =
     (if fnl col = Some ifile then
        (case dsl col of
           None \<Rightarrow> Inl KeyError
         | Some ds \<Rightarrow> Inr (ds, fnl, dsl, []))
      else
        (case open_dataset fs ifile of
           Inl e \<Rightarrow> Inl e
         | Inr ds \<Rightarrow>
             Inr (ds, fnl(col \<mapsto> ifile), dsl(col \<mapsto> ds),
                  [Msg_reading ifile, Io_open_dataset ifile])))"

text \<open>
  Lines 127 to 168. \<open>None\<close> in the result is the early return of line 140, taken when
  the chm file has to be read and is not there. Only the chm file is tested with
  \<^verbatim>\<open>os.path.isfile\<close>.
\<close>

definition open_collections ::
  "pylib \<Rightarrow> files \<Rightarrow> args \<Rightarrow> row \<Rightarrow> fnl \<Rightarrow> dsl
   \<Rightarrow> error + (dataset \<times> dataset \<times> dataset) option \<times> fnl \<times> dsl \<times> event list" where
  "open_collections L fs a r fnl dsl =
     (let idate = round_H (date r);
          templ = strftime L idate (cf_template a);
          ifilec = replace_all ''<col>'' ''chm'' templ
      in
      if fnl ''chm'' \<noteq> Some ifilec \<and> \<not> isfile fs ifilec
      then Inr (None, fnl, dsl, [Msg_not_found ifilec])
      else
        (case cached_or_open fs ''chm'' ifilec fnl dsl of
           Inl e \<Rightarrow> Inl e
         | Inr (dsc, fnl1, dsl1, ev1) \<Rightarrow>
             let ifilem = replace_all ''<col>'' ''met'' templ in
             (case cached_or_open fs ''met'' ifilem fnl1 dsl1 of
                Inl e \<Rightarrow> Inl e
              | Inr (dsm, fnl2, dsl2, ev2) \<Rightarrow>
                  let ifilep = strftime L (date r) (pbl_template a) in
                  (case cached_or_open fs ''pbl'' ifilep fnl2 dsl2 of
                     Inl e \<Rightarrow> Inl e
                   | Inr (dsp, fnl3, dsl3, ev3) \<Rightarrow>
                       Inr (Some (dsc, dsm, dsp), fnl3, dsl3, ev1 @ ev2 @ ev3)))))"

text \<open>
  Lines 169 to 204: \<^verbatim>\<open>sfcmr\<close>, \<^verbatim>\<open>sfcconc\<close>, \<^verbatim>\<open>l1col\<close>, \<^verbatim>\<open>pbl\<close> and
  \<^verbatim>\<open>sfcmr_pandora\<close>, with what the loop printed. A missing variable raises
  \<open>KeyError\<close>; a division by zero at line 176 or 203 is \<open>NonFinite\<close>.
\<close>

definition derive_values ::
  "dataset \<Rightarrow> dataset \<Rightarrow> dataset \<Rightarrow> row \<Rightarrow> real \<Rightarrow> real
   \<Rightarrow> error + (real \<times> real \<times> real \<times> real \<times> real) \<times> event list" where
  "derive_values dsc dsm dsp r la lo =
     (case get_surface dsp ''ZPBL'' lo la of Inl e \<Rightarrow> Inl e | Inr pbl \<Rightarrow>
     (case get_bottom dsc ''NO2'' lo la of Inl e \<Rightarrow> Inl e | Inr iconc \<Rightarrow>
     (case get_surface dsm ''PS'' lo la of Inl e \<Rightarrow> Inl e | Inr prs \<Rightarrow>
     (case get_bottom dsm ''T'' lo la of Inl e \<Rightarrow> Inl e | Inr temp \<Rightarrow>
        if 8.314 * temp = 0 then Inl NonFinite
        else
     (let ihgt = pandora_no2_l1hgt r * 1000 in
     (case get_column dsm ''DELP'' lo la of Inl e \<Rightarrow> Inl e | Inr delp' \<Rightarrow>
     (case get_column dsm ''ZL'' lo la of Inl e \<Rightarrow> Inl e | Inr zl' \<Rightarrow>
     (case get_column dsm ''Q'' lo la of Inl e \<Rightarrow> Inl e | Inr q' \<Rightarrow>
     (case get_column dsc ''NO2'' lo la of Inl e \<Rightarrow> Inl e | Inr no2' \<Rightarrow>
     (case partial_column \<lparr> delp = delp', zl = zl', q = q', no2 = no2' \<rparr> ihgt of
        Inl e \<Rightarrow> Inl e
      | Inr s \<Rightarrow>
          if q' = [] then Inl IndexError
          else if prs = 0 \<or> 1 - hd q' = 0 then Inl NonFinite
          else
            Inr ((sfcmr_of iconc, sfcconc_of iconc prs temp, l1col s, pbl,
                  sfcmr_pandora_of (pandora_no2_sfcconc r) prs temp (hd q')),
                 out s)))))))))))"

text \<open>
  \<^verbatim>\<open>_match_cf(args,row,lat,lon,fnl,dsl)\<close>: the five values (\<open>None\<close> is \<^verbatim>\<open>np.nan\<close>), the
  two dictionaries and what was printed and opened.
\<close>

type_synonym matched =
  "real option \<times> real option \<times> real option \<times> real option \<times> real option"

definition match_cf ::
  "pylib \<Rightarrow> files \<Rightarrow> args \<Rightarrow> row \<Rightarrow> real \<Rightarrow> real \<Rightarrow> fnl \<Rightarrow> dsl
   \<Rightarrow> error + matched \<times> fnl \<times> dsl \<times> event list" where
  "match_cf L fs a r la lo fnl dsl =
     (case open_collections L fs a r fnl dsl of
        Inl e \<Rightarrow> Inl e
      | Inr (None, fnl', dsl', ev) \<Rightarrow> Inr ((None, None, None, None, None), fnl', dsl', ev)
      | Inr (Some (dsc, dsm, dsp), fnl', dsl', ev) \<Rightarrow>
          (case derive_values dsc dsm dsp r la lo of
             Inl e \<Rightarrow> Inl e
           | Inr ((sfcmr, sfcconc, l1col', pbl, sfcmr_pandora), ev') \<Rightarrow>
               Inr ((Some sfcmr, Some sfcconc, Some l1col', Some pbl, Some sfcmr_pandora),
                    fnl', dsl', ev @ ev')))"

section \<open>Reading the observations (\<^verbatim>\<open>_read_pandora\<close>)\<close>

text \<open>Lines 216 to 222: one data row, from the text of its first field.\<close>

definition parse_row :: "pylib \<Rightarrow> string \<Rightarrow> error + row" where
  "parse_row L iline0 =
     (let vals = split_on CHR '' '' iline0 in
     (case strptime L (hd vals) of None \<Rightarrow> Inl ValueError | Some idate \<Rightarrow>
        if length vals \<le> 52 then Inl IndexError else
     (case py_int L (vals ! 52) of None \<Rightarrow> Inl ValueError | Some qval \<Rightarrow>
        if length vals \<le> 55 then Inl IndexError else
     (case py_float L (vals ! 55) of None \<Rightarrow> Inl ValueError | Some sfcmr \<Rightarrow>
        if length vals \<le> 67 then Inl IndexError else
     (case py_float L (vals ! 67) of None \<Rightarrow> Inl ValueError | Some l1hgt \<Rightarrow>
        if length vals \<le> 68 then Inl IndexError else
     (case py_float L (vals ! 68) of None \<Rightarrow> Inl ValueError | Some l1col' \<Rightarrow>
        Inr \<lparr> date = idate, pandora_no2_qval = qval, pandora_no2_sfcconc = sfcmr,
              pandora_no2_l1hgt = l1hgt, pandora_no2_l1col = l1col' \<rparr>))))))"

text \<open>Lines 213 to 223: the rows in the order of the file; the first bad row raises.\<close>

fun parse_rows :: "pylib \<Rightarrow> string list \<Rightarrow> error + row list" where
  "parse_rows L [] = Inr []"
| "parse_rows L (x # xs) =
     (case parse_row L x of
        Inl e \<Rightarrow> Inl e
      | Inr r \<Rightarrow>
          (case parse_rows L xs of
             Inl e \<Rightarrow> Inl e
           | Inr rs \<Rightarrow> Inr (r # rs)))"

text \<open>
  \<^verbatim>\<open>f.readline()\<close> on the lines that are left: the next line with its line feed, or the
  empty bytes at the end of the file (and the file stays at its end).
\<close>

definition readline :: "string list \<Rightarrow> string" where
  "readline f = (case f of [] \<Rightarrow> [] | l # _ \<Rightarrow> l @ [CHR 0x0A])"

text \<open>Lines 232 and 235: the number after the first colon of the line.\<close>

definition parse_coord :: "pylib \<Rightarrow> string \<Rightarrow> error + real" where
  "parse_coord L line =
     (let parts = split_on CHR '':'' line in
      if length parts \<le> 1 then Inl IndexError
      else
        (case py_float L
                (replace_all [CHR 0x27] []
                  (replace_all [CHR 0x5C, CHR ''n''] []
                    (replace_all '' '' [] (parts ! 1)))) of
           None \<Rightarrow> Inl ValueError
         | Some v \<Rightarrow> Inr v))"

text \<open>Lines 231 to 236: what one line does to \<^verbatim>\<open>lat\<close> and \<^verbatim>\<open>lon\<close>.\<close>

definition scan_line ::
  "pylib \<Rightarrow> string \<Rightarrow> real option \<Rightarrow> real option \<Rightarrow> event list
   \<Rightarrow> error + real option \<times> real option \<times> event list" where
  "scan_line L line la lo ev =
     (case (if contains ''Location latitude'' line
            then (case parse_coord L line of
                    Inl e \<Rightarrow> Inl e
                  | Inr v \<Rightarrow> Inr (Some v, ev @ [Msg_latitude v]))
            else Inr (la, ev)) of
        Inl e \<Rightarrow> Inl e
      | Inr (la', ev') \<Rightarrow>
          if contains ''Location longitude'' line
          then (case parse_coord L line of
                  Inl e \<Rightarrow> Inl e
                | Inr v \<Rightarrow> Inr (la', Some v, ev' @ [Msg_longitude v]))
          else Inr (la', lo, ev'))"

text \<open>
  Lines 229 to 236: \<^verbatim>\<open>while lat is None or lon is None\<close>. The loop has no test for the
  end of the file, so it may run forever: \<open>None\<close> is the run that never returns.
\<close>

partial_function (option) scan_latlon ::
  "pylib \<Rightarrow> string list \<Rightarrow> real option \<Rightarrow> real option \<Rightarrow> event list
   \<Rightarrow> (error + real \<times> real \<times> event list) option" where
  "scan_latlon L f la lo ev =
     (if la = None \<or> lo = None then
        (case scan_line L (py_str_bytes (readline f)) la lo ev of
           Inl e \<Rightarrow> Some (Inl e)
         | Inr (la', lo', ev') \<Rightarrow> scan_latlon L (tl f) la' lo' ev')
      else Some (Inr (the la, the lo, ev)))"

text \<open>
  \<^verbatim>\<open>_read_pandora(ifile)\<close>: the table, the latitude and the longitude.
  \<^verbatim>\<open>pd.concat\<close> of no rows raises \<open>ValueError\<close>.
\<close>

definition read_pandora ::
  "pylib \<Rightarrow> files \<Rightarrow> path \<Rightarrow> (error + row list \<times> real \<times> real \<times> event list) option" where
  "read_pandora L fs ifile =
     (case read_text fs ifile of
        Inl e \<Rightarrow> Some (Inl e)
      | Inr ls \<Rightarrow>
          (case read_csv L ls of
             Inl e \<Rightarrow> Some (Inl e)
           | Inr dat \<Rightarrow>
               (case parse_rows L dat of
                  Inl e \<Rightarrow> Some (Inl e)
                | Inr tmp \<Rightarrow>
                    if tmp = [] then Some (Inl ValueError)
                    else
                      (case scan_latlon L ls None None [] of
                         None \<Rightarrow> None
                       | Some (Inl e) \<Rightarrow> Some (Inl e)
                       | Some (Inr (la, lo, ev)) \<Rightarrow>
                           Some (Inr (tmp, la, lo,
                                      [Msg_reading ifile, Io_read_obs ifile] @ ev))))))"

section \<open>The run (\<^verbatim>\<open>main\<close>)\<close>

text \<open>Lines 57 and 58: three days before now, at midnight.\<close>

definition maxdate_of :: "int \<Rightarrow> int" where
  "maxdate_of now = (now - 3 * day) div day * day"

text \<open>Lines 59 to 61: the three selections, one after the other.\<close>

definition select_rows :: "int \<Rightarrow> row list \<Rightarrow> row list" where
  "select_rows maxdate pand =
     filter (\<lambda>r. pandora_no2_l1hgt r > 0 \<and> pandora_no2_l1hgt r < 15)
       (filter (\<lambda>r. date r \<le> maxdate)
         (filter (\<lambda>r. date r \<ge> MINDATE) pand))"

text \<open>Lines 64 to 68, 76 to 80, 83 and 84: the row of the written table.\<close>

definition merged_row :: "row \<Rightarrow> matched \<Rightarrow> real \<Rightarrow> real \<Rightarrow> merged" where
  "merged_row r m la lo =
     (case m of (sfcmr, sfcconc, l1col', pbl, sfcmr_pandora) \<Rightarrow>
        \<lparr> date = date r, pandora_no2_qval = pandora_no2_qval r,
          pandora_no2_sfcconc = pandora_no2_sfcconc r,
          pandora_no2_l1hgt = pandora_no2_l1hgt r,
          pandora_no2_l1col = pandora_no2_l1col r,
          pandora_no2_sfcmr = sfcmr_pandora, cf_no2_sfcmr = sfcmr,
          cf_no2_sfcconc = sfcconc, cf_no2_l1col = l1col', cf_no2_pbl = pbl,
          site_lat = la, site_lon = lo \<rparr>)"

text \<open>
  Lines 71 to 80: the rows in order, \<^verbatim>\<open>fnl\<close> and \<^verbatim>\<open>dsl\<close> handed from one row to the
  next. An exception of \<^verbatim>\<open>_match_cf\<close> is not caught: it ends the run.
\<close>

fun populate ::
  "pylib \<Rightarrow> files \<Rightarrow> args \<Rightarrow> real \<Rightarrow> real \<Rightarrow> row list \<Rightarrow> fnl \<Rightarrow> dsl
   \<Rightarrow> error + merged list \<times> event list" where
  "populate L fs a la lo [] fnl dsl = Inr ([], [])"
| "populate L fs a la lo (r # rs) fnl dsl =
     (case match_cf L fs a r la lo fnl dsl of
        Inl e \<Rightarrow> Inl e
      | Inr (m, fnl', dsl', ev) \<Rightarrow>
          (case populate L fs a la lo rs fnl' dsl' of
             Inl e \<Rightarrow> Inl e
           | Inr (ms, ev') \<Rightarrow> Inr (merged_row r m la lo # ms, ev @ ev')))"

text \<open>Lines 42, 43 and 48: the names of the two files.\<close>

definition basename_of :: "string \<Rightarrow> string" where
  "basename_of url = last (split_on CHR ''/'' url)"

definition ifile_of :: "string \<Rightarrow> path" where
  "ifile_of url = ''obs/'' @ basename_of url"

definition ofile_of :: "string \<Rightarrow> path" where
  "ofile_of url = ''merged_csv/'' @ replace_all ''.txt'' ''+GEOSCF.csv'' (basename_of url)"

text \<open>
  \<^verbatim>\<open>main(args)\<close>, lines 39 to 88, on the files and the clock of \<open>w\<close>. The result is
  \<open>None\<close> when the run never returns, an exception when one ends it, and otherwise the
  files as the run leaves them, with what it printed and did. Writing the table is
  taken to succeed.
\<close>

definition main :: "pylib \<Rightarrow> args \<Rightarrow> world \<Rightarrow> (error + world) option" where
  "main L a w =
     (case load_json (files w) (locations a) of
        Inl e \<Rightarrow> Some (Inl e)
      | Inr locs \<Rightarrow>
          if \<not> nsite a < int (length locs) then Some (Inl AssertionError)
          else
            (case py_index locs (nsite a) of
               Inl e \<Rightarrow> Some (Inl e)
             | Inr None \<Rightarrow> Some (Inl AttributeError)
             | Inr (Some url) \<Rightarrow>
                 if \<not> isfile (files w) (ifile_of url)
                 then Some (Inr (w\<lparr> console := console w @ [Msg_obs_missing (ifile_of url)] \<rparr>))
                 else if isfile (files w) (ofile_of url)
                 then Some (Inr (w\<lparr> console := console w @ [Msg_out_exists (ofile_of url)] \<rparr>))
                 else
                   (case read_pandora L (files w) (ifile_of url) of
                      None \<Rightarrow> None
                    | Some (Inl e) \<Rightarrow> Some (Inl e)
                    | Some (Inr (pand, la, lo, ev)) \<Rightarrow>
                        (case populate L (files w) a la lo
                                (select_rows (maxdate_of (today w)) pand)
                                Map.empty Map.empty of
                           Inl e \<Rightarrow> Some (Inl e)
                         | Inr (rows, ev') \<Rightarrow>
                             Some (Inr (w\<lparr>
                               files := (files w)(ofile_of url \<mapsto> Csv rows),
                               console := console w @ ev @ ev'
                                 @ [Io_to_csv (ofile_of url), Msg_written (ofile_of url)] \<rparr>))))))"

section \<open>The layer sum as the specification words it\<close>

text \<open>
  The height of the top of layer \<open>i\<close>: the midpoint of \<open>z[i]\<close> and \<open>z[i+1]\<close>.
\<close>

definition spec_layer_top :: "real list \<Rightarrow> nat \<Rightarrow> real" where
  "spec_layer_top z i = (z ! i + z ! (i + 1)) / 2"

text \<open>
  The height of the bottom of layer \<open>j\<close>: the midpoint of \<open>z[j]\<close> and \<open>z[j-1]\<close>, or 0
  for the first layer.
\<close>

definition spec_layer_bottom :: "real list \<Rightarrow> nat \<Rightarrow> real" where
  "spec_layer_bottom z j = (if j = 0 then 0 else (z ! j + z ! (j - 1)) / 2)"

text \<open>The amount of a whole layer: \<open>x[i]*\<Delta>p[i]*(1-q[i])*K\<close>.\<close>

definition spec_layer_amount :: "profile \<Rightarrow> nat \<Rightarrow> real" where
  "spec_layer_amount p i = no2 p ! i * delp p ! i * (1 - q p ! i) * VV_TO_MOLEC"

text \<open>The first layer whose top is above \<open>H\<close>, among the layers that have a top.\<close>

definition spec_first_above :: "real list \<Rightarrow> real \<Rightarrow> nat option" where
  "spec_first_above z H = find (\<lambda>j. H < spec_layer_top z j) [0..<length z - 1]"

text \<open>
  The closed form: the whole amount of every layer whose top is at or below \<open>H\<close>, and
  of layer \<open>j\<close> the fraction \<open>(H - bottom) / (top - bottom)\<close>.
\<close>

definition spec_closed_form :: "profile \<Rightarrow> real \<Rightarrow> nat \<Rightarrow> real" where
  "spec_closed_form p H j =
     (\<Sum>i\<leftarrow>filter (\<lambda>i. spec_layer_top (zl p) i \<le> H) [0..<length (zl p) - 1].
        spec_layer_amount p i)
     + spec_layer_amount p j
         * ((H - spec_layer_bottom (zl p) j)
            / (spec_layer_top (zl p) j - spec_layer_bottom (zl p) j))"

text \<open>The four arrays have one entry per layer.\<close>

definition per_layer :: "profile \<Rightarrow> bool" where
  "per_layer p \<longleftrightarrow>
     length (no2 p) = length (zl p) \<and> length (delp p) = length (zl p)
     \<and> length (q p) = length (zl p)"

text \<open>
  No layer holds a negative amount: mixing ratios and pressure thicknesses are not
  negative, and no specific humidity is above 1.
\<close>

definition nonneg_inputs :: "profile \<Rightarrow> bool" where
  "nonneg_inputs p \<longleftrightarrow>
     list_all (\<lambda>x. 0 \<le> x) (no2 p) \<and> list_all (\<lambda>x. 0 \<le> x) (delp p)
     \<and> list_all (\<lambda>x. x \<le> 1) (q p)"

text \<open>
  The test of lines 231 and 234 on a line \<open>l\<close> of the file: the label stands in
  \<^verbatim>\<open>str(f.readline())\<close>.
\<close>

definition has_label :: "string \<Rightarrow> string \<Rightarrow> bool" where
  "has_label label l \<longleftrightarrow> contains label (py_str_bytes (l @ [CHR 0x0A]))"

text \<open>
  The rule of the cache as the specification words it, for the family \<open>col\<close> and the
  path \<open>p\<close> formatted for it: the cached handle when \<open>p\<close> is the cached path, otherwise
  the file opened.
\<close>

definition spec_resolve :: "files \<Rightarrow> fnl \<Rightarrow> dsl \<Rightarrow> string \<Rightarrow> path \<Rightarrow> dataset option" where
  "spec_resolve fs fnl dsl col p =
     (if fnl col = Some p then dsl col
      else (case fs p of Some (NetCDF ds) \<Rightarrow> Some ds | _ \<Rightarrow> None))"

text \<open>No input or output on a hit; on a miss, the message and the opening of the file.\<close>

definition spec_io :: "fnl \<Rightarrow> string \<Rightarrow> path \<Rightarrow> event list" where
  "spec_io fnl col p = (if fnl col = Some p then [] else [Msg_reading p, Io_open_dataset p])"

text \<open>
  Two rows, of the table read or of the table written, that differ at most in the
  quality flag; and the rows \<open>ms\<close> carrying, one by one, the flags of the records \<open>rs\<close>.
\<close>

definition differ_only_in_flag :: "'a row_scheme \<Rightarrow> 'a row_scheme \<Rightarrow> bool" where
  "differ_only_in_flag r r' \<longleftrightarrow> r' = r\<lparr> pandora_no2_qval := pandora_no2_qval r' \<rparr>"

definition with_flags_of :: "merged list \<Rightarrow> row list \<Rightarrow> merged list" where
  "with_flags_of ms rs = map2 (\<lambda>m r. m\<lparr> pandora_no2_qval := pandora_no2_qval r \<rparr>) ms rs"

text \<open>The rows of the table that stands at path \<open>p\<close>, if one does.\<close>

definition written_rows :: "world \<Rightarrow> path \<Rightarrow> merged list" where
  "written_rows w p = (case files w p of Some (Csv rows) \<Rightarrow> rows | _ \<Rightarrow> [])"

section \<open>Example inputs\<close>

text \<open>Three layers with mid-layer heights 50, 150 and 250 m: tops at 100 and 200 m.\<close>

definition example_profile :: profile where
  "example_profile =
     \<lparr> delp = [100, 100, 100], zl = [50, 150, 250], q = [0.01, 0.01, 0.01],
       no2 = [2 / 10 ^ 8, 2 / 10 ^ 8, 2 / 10 ^ 8] \<rparr>"

text \<open>The same heights with a specific humidity of 2 in every layer.\<close>

definition wet_profile :: profile where
  "wet_profile = \<lparr> delp = [1, 1, 1], zl = [50, 150, 250], q = [2, 2, 2], no2 = [1, 1, 1] \<rparr>"

text \<open>Two layers: the only top is at 100 m.\<close>

definition short_profile :: profile where
  "short_profile =
     \<lparr> delp = [100, 100], zl = [50, 150], q = [0.01, 0.01], no2 = [2 / 10 ^ 8, 2 / 10 ^ 8] \<rparr>"

text \<open>
  Library functions for the examples: they agree with Python on the texts the examples
  hold. The templates of the examples carry no \<^verbatim>\<open>%\<close> directive, so \<^verbatim>\<open>strftime\<close> gives
  them back; 2021-01-01 is day 18628 and 2019-01-01 day 17897 after 1970-01-01.
\<close>

definition example_lib :: pylib where
  "example_lib =
     \<lparr> strftime = (\<lambda>t tpl. tpl),
       strptime = (\<lambda>s. if s = ''20210101T000000.0z'' then Some (18628 * day)
                       else if s = ''20190101T000000.0z'' then Some (17897 * day)
                       else None),
       py_int = (\<lambda>s. if s = ''10'' then Some 10 else if s = ''0'' then Some 0 else None),
       py_float = (\<lambda>s. if s = ''38.9'' then Some 38.9
                       else if s = ''-77.0'' then Some (- 77)
                       else if s = ''1.0e-7'' then Some (1 / 10 ^ 7)
                       else if s = ''1.0e-4'' then Some (1 / 10 ^ 4)
                       else if s = ''0.12'' then Some 0.12
                       else if s = ''20.0'' then Some 20
                       else None),
       read_csv = (\<lambda>ls. case drop 93 ls of [] \<Rightarrow> Inl ValueError | h # rows \<Rightarrow> Inr rows) \<rparr>"

text \<open>A data line: 69 fields with single spaces between them.\<close>

fun join_fields :: "string list \<Rightarrow> string" where
  "join_fields [] = []"
| "join_fields [w] = w"
| "join_fields (w # v # ws) = w @ CHR '' '' # join_fields (v # ws)"

definition obs_fields :: "string \<Rightarrow> string \<Rightarrow> string \<Rightarrow> string \<Rightarrow> string \<Rightarrow> string list" where
  "obs_fields d qv c h col =
     d # replicate 51 ''0'' @ [qv, ''0'', ''0'', c] @ replicate 11 ''0'' @ [h, col]"

definition obs_line :: "string \<Rightarrow> string \<Rightarrow> string \<Rightarrow> string \<Rightarrow> string \<Rightarrow> string" where
  "obs_line d qv c h col = join_fields (obs_fields d qv c h col)"

text \<open>
  An observation file: the two labelled lines, 91 more lines of preamble, the line
  \<^verbatim>\<open>read_csv\<close> takes as header, and three records. The second is from 2019 and the
  third reports a layer height of 20 km.
\<close>

definition example_rows :: "string list" where
  "example_rows =
     [obs_line ''20210101T000000.0z'' ''10'' ''1.0e-7'' ''0.12'' ''1.0e-4'',
      obs_line ''20190101T000000.0z'' ''10'' ''1.0e-7'' ''0.12'' ''1.0e-4'',
      obs_line ''20210101T000000.0z'' ''0'' ''1.0e-7'' ''20.0'' ''1.0e-4'']"

definition example_obs :: "string list" where
  "example_obs =
     [''Location latitude [deg]: 38.9'', ''Location longitude [deg]: -77.0'']
     @ replicate 91 ''---'' @ [''header''] @ example_rows"

text \<open>The same file without the line of the longitude.\<close>

definition example_obs_no_lon :: "string list" where
  "example_obs_no_lon =
     [''Location latitude [deg]: 38.9''] @ replicate 92 ''---'' @ [''header''] @ example_rows"

text \<open>The record of 2021 with quality flag 10 and a layer height of 0.12 km.\<close>

definition example_row :: row where
  "example_row =
     \<lparr> date = 18628 * day, pandora_no2_qval = 10, pandora_no2_sfcconc = 1 / 10 ^ 7,
       pandora_no2_l1hgt = 0.12, pandora_no2_l1col = 1 / 10 ^ 4 \<rparr>"

text \<open>The record of 2019 and the record with a layer height of 20 km.\<close>

definition example_row_old :: row where
  "example_row_old = example_row\<lparr> date := 17897 * day \<rparr>"

definition example_row_high :: row where
  "example_row_high = example_row\<lparr> pandora_no2_qval := 0, pandora_no2_l1hgt := 20 \<rparr>"

text \<open>
  Three GEOS-CF files whose columns, the surface last, are those of the example
  profile.
\<close>

definition example_chm :: dataset where
  "example_chm =
     \<lparr> surface = (\<lambda>v lo la. None),
       levels = (\<lambda>v lo la. if v = ''NO2'' then Some [2 / 10 ^ 8, 2 / 10 ^ 8, 2 / 10 ^ 8]
                            else None) \<rparr>"

definition example_met :: dataset where
  "example_met =
     \<lparr> surface = (\<lambda>v lo la. if v = ''PS'' then Some 101325 else None),
       levels = (\<lambda>v lo la. if v = ''T'' then Some [250, 280, 288]
                            else if v = ''DELP'' then Some [100, 100, 100]
                            else if v = ''ZL'' then Some [250, 150, 50]
                            else if v = ''Q'' then Some [0.01, 0.01, 0.01]
                            else None) \<rparr>"

definition example_pbl :: dataset where
  "example_pbl =
     \<lparr> surface = (\<lambda>v lo la. if v = ''ZPBL'' then Some 800 else None),
       levels = (\<lambda>v lo la. None) \<rparr>"

definition example_args :: args where
  "example_args =
     \<lparr> locations = ''PANDORA_Locations.json'', nsite = 0,
       cf_template = ''cf_<col>.nc'', pbl_template = ''pbl.nc'' \<rparr>"

definition example_url :: string where
  "example_url = ''https://host/site/P1.txt''"

text \<open>The files of a run with every GEOS-CF file in place, and the same without the met file.\<close>

definition example_files :: files where
  "example_files =
     [''PANDORA_Locations.json'' \<mapsto> Json [Some example_url],
      ''obs/P1.txt'' \<mapsto> Text example_obs,
      ''cf_chm.nc'' \<mapsto> NetCDF example_chm,
      ''cf_met.nc'' \<mapsto> NetCDF example_met,
      ''pbl.nc'' \<mapsto> NetCDF example_pbl]"

definition example_files_no_met :: files where
  "example_files_no_met =
     [''PANDORA_Locations.json'' \<mapsto> Json [Some example_url],
      ''obs/P1.txt'' \<mapsto> Text example_obs,
      ''cf_chm.nc'' \<mapsto> NetCDF example_chm,
      ''pbl.nc'' \<mapsto> NetCDF example_pbl]"

definition example_files_no_lon :: files where
  "example_files_no_lon =
     [''PANDORA_Locations.json'' \<mapsto> Json [Some example_url],
      ''obs/P1.txt'' \<mapsto> Text example_obs_no_lon]"

text \<open>The clock of the examples: day 19000 after 1970-01-01 (2022-01-08), at 05:00.\<close>

definition example_world :: world where
  "example_world = \<lparr> files = example_files, console = [], today = 19000 * day + 5 * hour \<rparr>"

text \<open>What the first record of the example file is matched with, and the written row.\<close>

definition example_values :: matched where
  "example_values =
     (Some (sfcmr_of (2 / 10 ^ 8)), Some (sfcconc_of (2 / 10 ^ 8) 101325 288),
      Some (spec_closed_form example_profile 120 1), Some 800,
      Some (sfcmr_pandora_of (1 / 10 ^ 7) 101325 288 0.01))"

definition example_fnl :: fnl where
  "example_fnl = [''chm'' \<mapsto> ''cf_chm.nc'', ''met'' \<mapsto> ''cf_met.nc'', ''pbl'' \<mapsto> ''pbl.nc'']"

definition example_dsl :: dsl where
  "example_dsl = [''chm'' \<mapsto> example_chm, ''met'' \<mapsto> example_met, ''pbl'' \<mapsto> example_pbl]"

definition example_opened :: "event list" where
  "example_opened =
     [Msg_reading ''cf_chm.nc'', Io_open_dataset ''cf_chm.nc'',
      Msg_reading ''cf_met.nc'', Io_open_dataset ''cf_met.nc'',
      Msg_reading ''pbl.nc'', Io_open_dataset ''pbl.nc'']"

definition example_written :: world where
  "example_written =
     \<lparr> files = example_files(''merged_csv/P1+GEOSCF.csv'' \<mapsto>
                Csv [merged_row example_row example_values 38.9 (- 77)]),
       console = [Msg_reading ''obs/P1.txt'', Io_read_obs ''obs/P1.txt'',
                  Msg_latitude 38.9, Msg_longitude (- 77)]
                 @ example_opened
                 @ [Io_to_csv ''merged_csv/P1+GEOSCF.csv'', Msg_written ''merged_csv/P1+GEOSCF.csv''],
       today = 19000 * day + 5 * hour \<rparr>"

text \<open>
  The example file with quality flag 0 in its first record, and the files of the run
  with it.
\<close>

definition example_rows_flagged :: "string list" where
  "example_rows_flagged =
     [obs_line ''20210101T000000.0z'' ''0'' ''1.0e-7'' ''0.12'' ''1.0e-4'',
      obs_line ''20190101T000000.0z'' ''10'' ''1.0e-7'' ''0.12'' ''1.0e-4'',
      obs_line ''20210101T000000.0z'' ''0'' ''1.0e-7'' ''20.0'' ''1.0e-4'']"

definition example_obs_flagged :: "string list" where
  "example_obs_flagged =
     [''Location latitude [deg]: 38.9'', ''Location longitude [deg]: -77.0'']
     @ replicate 91 ''---'' @ [''header''] @ example_rows_flagged"

definition example_world_flagged :: world where
  "example_world_flagged =
     example_world\<lparr> files := example_files(''obs/P1.txt'' \<mapsto> Text example_obs_flagged) \<rparr>"

section \<open>The integration loop: lemmas\<close>

lemma VV_TO_MOLEC_pos: "0 < VV_TO_MOLEC"
  by (simp add: VV_TO_MOLEC_def)

lemma layer_frac_full:
  "i + 1 < length z \<Longrightarrow> spec_layer_top z i \<le> H \<Longrightarrow> layer_frac z H i = Inr 1"
  by (simp add: layer_frac_def spec_layer_top_def Let_def)

lemma layer_frac_part:
  "i + 1 < length z \<Longrightarrow> H < spec_layer_top z i \<Longrightarrow> spec_layer_top z i \<noteq> spec_layer_bottom z i \<Longrightarrow>
   layer_frac z H i = Inr ((H - spec_layer_bottom z i) / (spec_layer_top z i - spec_layer_bottom z i))"
  by (auto simp add: layer_frac_def spec_layer_top_def spec_layer_bottom_def Let_def)

lemma layer_bottom_Suc: "spec_layer_bottom z (Suc i) = spec_layer_top z i"
  by (simp add: spec_layer_bottom_def spec_layer_top_def add.commute)

lemma loop_body_full:
  assumes "i + 1 < length (zl p)" "spec_layer_top (zl p) i \<le> H" "per_layer p"
  shows "loop_body p H \<lparr> inML = True, iL = i, l1col = c, out = ev \<rparr>
         = Inr \<lparr> inML = True, iL = Suc i, l1col = c + spec_layer_amount p i, out = ev \<rparr>"
  using assms by (simp add: loop_body_def layer_frac_full per_layer_def spec_layer_amount_def)

lemma loop_body_part:
  assumes "i + 1 < length (zl p)" "H < spec_layer_top (zl p) i" "per_layer p"
    "spec_layer_bottom (zl p) i \<le> H"
  shows "loop_body p H \<lparr> inML = True, iL = i, l1col = c, out = ev \<rparr>
         = Inr \<lparr> inML = False, iL = Suc i,
                 l1col = c + spec_layer_amount p i
                   * ((H - spec_layer_bottom (zl p) i) / (spec_layer_top (zl p) i - spec_layer_bottom (zl p) i)),
                 out = ev \<rparr>"
proof -
  have ne: "spec_layer_top (zl p) i \<noteq> spec_layer_bottom (zl p) i" using assms by auto
  have lt: "(H - spec_layer_bottom (zl p) i) / (spec_layer_top (zl p) i - spec_layer_bottom (zl p) i) < 1"
    using assms by (simp add: divide_simps)
  show ?thesis
    using assms lt by (simp add: loop_body_def layer_frac_part [OF assms(1,2) ne] per_layer_def spec_layer_amount_def)
qed

lemma loop_steps_0 [simp]: "loop_steps 0 p H s = Inr s"
  by (simp add: loop_steps.simps)

lemma loop_steps_Suc:
  "inML s \<Longrightarrow> loop_body p H s = Inr t \<Longrightarrow> loop_steps (Suc k) p H s = loop_steps k p H t"
  by (simp add: loop_steps.simps)

lemma loop_steps_Suc_cases:
  assumes "loop_steps (Suc k) p H s = Inr t"
  shows "(\<not> inML s \<and> t = s) \<or> (inML s \<and> (\<exists>u. loop_body p H s = Inr u \<and> loop_steps k p H u = Inr t))"
  using assms by (auto simp: loop_steps.simps split: if_splits sum.splits)

lemma loop_steps_full:
  "per_layer p \<Longrightarrow> i + k < length (zl p) \<Longrightarrow> \<forall>m. i \<le> m \<and> m < i + k \<longrightarrow> spec_layer_top (zl p) m \<le> H \<Longrightarrow>
   loop_steps k p H \<lparr> inML = True, iL = i, l1col = c, out = ev \<rparr>
   = Inr \<lparr> inML = True, iL = i + k, l1col = c + sum (spec_layer_amount p) {i..<i + k}, out = ev \<rparr>"
proof (induction k arbitrary: i c)
  case 0
  then show ?case by simp
next
  case (Suc k)
  have b: "loop_body p H \<lparr> inML = True, iL = i, l1col = c, out = ev \<rparr>
         = Inr \<lparr> inML = True, iL = Suc i, l1col = c + spec_layer_amount p i, out = ev \<rparr>"
    using Suc.prems by (intro loop_body_full) auto
  have "loop_steps k p H \<lparr> inML = True, iL = Suc i, l1col = c + spec_layer_amount p i, out = ev \<rparr>
    = Inr \<lparr> inML = True, iL = Suc i + k, l1col = c + spec_layer_amount p i + sum (spec_layer_amount p) {Suc i..<Suc i + k}, out = ev \<rparr>"
    using Suc.prems by (intro Suc.IH) auto
  then show ?case using b by (simp add: loop_steps_Suc sum.atLeast_Suc_lessThan add.assoc)
qed

lemma while_inML_stopped: "\<not> inML s \<Longrightarrow> while_inML p H s = Inr s"
  by (simp add: while_inML.simps)

lemma while_inML_step: "inML s \<Longrightarrow> loop_body p H s = Inr s' \<Longrightarrow> while_inML p H s = while_inML p H s'"
  by (subst while_inML.simps) simp

lemma while_inML_raise: "inML s \<Longrightarrow> loop_body p H s = Inl e \<Longrightarrow> while_inML p H s = Inl e"
  by (subst while_inML.simps) simp

lemma while_inML_steps:
  "loop_steps k p H s = Inr s' \<Longrightarrow> while_inML p H s = while_inML p H s'"
proof (induction k arbitrary: s)
  case 0
  then show ?case by simp
next
  case (Suc k)
  show ?case
  proof (cases "inML s")
    case True
    then obtain t where t: "loop_body p H s = Inr t" "loop_steps k p H t = Inr s'"
      using loop_steps_Suc_cases [OF Suc.prems] by auto
    then show ?thesis using True Suc.IH [of t] while_inML_step [of s p H t] by simp
  next
    case False
    then show ?thesis using loop_steps_Suc_cases [OF Suc.prems] by auto
  qed
qed

lemma first_above_SomeD:
  assumes "spec_first_above z H = Some j"
  shows "j + 1 < length z" "H < spec_layer_top z j" "\<forall>i<j. spec_layer_top z i \<le> H"
proof -
  from assms obtain i where i: "i < length [0..<length z - 1]" "H < spec_layer_top z ([0..<length z - 1] ! i)"
     "j = [0..<length z - 1] ! i" "\<forall>m<i. \<not> H < spec_layer_top z ([0..<length z - 1] ! m)"
    unfolding spec_first_above_def find_Some_iff by blast
  then have ji: "j = i" by simp
  show "j + 1 < length z" using i ji by simp
  show "H < spec_layer_top z j" using i ji by simp
  show "\<forall>i<j. spec_layer_top z i \<le> H" using i ji by (auto simp: not_less)
qed

lemma layer_top_mono:
  assumes "sorted z" "i \<le> k" "k + 1 < length z"
  shows "spec_layer_top z i \<le> spec_layer_top z k"
proof -
  have "z ! i \<le> z ! k" "z ! (i + 1) \<le> z ! (k + 1)"
    using assms by (auto intro!: sorted_nth_mono)
  then show ?thesis by (simp add: spec_layer_top_def)
qed

lemma full_layers_below:
  assumes "sorted z" "spec_first_above z H = Some j"
  shows "filter (\<lambda>i. spec_layer_top z i \<le> H) [0..<length z - 1] = [0..<j]"
proof -
  note fa = first_above_SomeD [OF assms(2)]
  have split: "[0..<length z - 1] = [0..<j] @ [j..<length z - 1]"
    using fa(1) by (metis le_add2 le_add_diff_inverse less_imp_le_nat less_diff_conv upt_add_eq_append zero_le)
  have a: "filter (\<lambda>i. spec_layer_top z i \<le> H) [0..<j] = [0..<j]"
    using fa(3) by (simp add: filter_id_conv)
  have b: "filter (\<lambda>i. spec_layer_top z i \<le> H) [j..<length z - 1] = []"
  proof -
    have h: "\<not> spec_layer_top z k \<le> H" if "j \<le> k" "k < length z - 1" for k
    proof -
      have "k + 1 < length z" using that(2) by linarith
      then have "spec_layer_top z j \<le> spec_layer_top z k"
        using layer_top_mono [OF assms(1) that(1)] by simp
      then show ?thesis using fa(2) by simp
    qed
    show ?thesis using h by (auto simp: filter_empty_conv)
  qed
  show ?thesis by (subst split) (simp only: filter_append a b append_Nil2)
qed

lemma partial_column_value:
  assumes "per_layer p" "0 < j \<or> 0 \<le> H" "spec_first_above (zl p) H = Some j"
  shows "partial_column p H
         = Inr \<lparr> inML = False, iL = Suc j,
                 l1col = sum (spec_layer_amount p) {0..<j} + spec_layer_amount p j
                   * ((H - spec_layer_bottom (zl p) j) / (spec_layer_top (zl p) j - spec_layer_bottom (zl p) j)),
                 out = [] \<rparr>"
proof -
  note fa = first_above_SomeD [OF assms(3)]
  have st: "loop_steps j p H loop_init
    = Inr \<lparr> inML = True, iL = j, l1col = sum (spec_layer_amount p) {0..<j}, out = [] \<rparr>"
    unfolding loop_init_def
    using loop_steps_full [of p 0 j H 0 "[]"] assms(1) fa by simp
  have bot: "spec_layer_bottom (zl p) j \<le> H"
  proof (cases j)
    case 0
    then show ?thesis using assms(2) by (simp add: spec_layer_bottom_def)
  next
    case (Suc i)
    then show ?thesis using fa(3) by (simp add: layer_bottom_Suc)
  qed
  have "partial_column p H
    = while_inML p H \<lparr> inML = True, iL = j, l1col = sum (spec_layer_amount p) {0..<j}, out = [] \<rparr>"
    unfolding partial_column_def by (rule while_inML_steps [OF st])
  also have "\<dots> = while_inML p H \<lparr> inML = False, iL = Suc j,
                 l1col = sum (spec_layer_amount p) {0..<j} + spec_layer_amount p j
                   * ((H - spec_layer_bottom (zl p) j) / (spec_layer_top (zl p) j - spec_layer_bottom (zl p) j)),
                 out = [] \<rparr>"
    by (rule while_inML_step) (simp_all add: loop_body_part [OF fa(1) fa(2) assms(1) bot])
  finally show ?thesis by (simp add: while_inML_stopped)
qed

lemma layer_amount_nonneg:
  assumes "nonneg_inputs p" "per_layer p" "i < length (zl p)"
  shows "0 \<le> spec_layer_amount p i"
proof -
  have "0 \<le> no2 p ! i" "0 \<le> delp p ! i" "q p ! i \<le> 1"
    using assms by (simp_all add: nonneg_inputs_def per_layer_def list_all_length)
  then show ?thesis
    using VV_TO_MOLEC_pos by (simp add: spec_layer_amount_def)
qed

lemma loop_steps_stopped: "\<not> inML s \<Longrightarrow> loop_steps k p H s = Inr s"
  by (cases k) (simp_all add: loop_steps.simps)

lemma loop_steps_Suc_right:
  "loop_steps k p H s = Inr t \<Longrightarrow> loop_steps (Suc k) p H s = loop_steps (Suc 0) p H t"
proof (induction k arbitrary: s)
  case 0
  then show ?case by simp
next
  case (Suc k)
  show ?case
  proof (cases "inML s")
    case True
    then obtain u where u: "loop_body p H s = Inr u" "loop_steps k p H u = Inr t"
      using loop_steps_Suc_cases [OF Suc.prems] by auto
    have "loop_steps (Suc (Suc k)) p H s = loop_steps (Suc k) p H u"
      using True u(1) by (rule loop_steps_Suc)
    then show ?thesis using Suc.IH [OF u(2)] by simp
  next
    case False
    then have "t = s" using loop_steps_Suc_cases [OF Suc.prems] by auto
    then show ?thesis using False by (simp add: loop_steps_stopped)
  qed
qed

lemma running_sum_mono:
  assumes "per_layer p" "0 < j \<or> 0 \<le> H" "spec_first_above (zl p) H = Some j" "nonneg_inputs p"
  shows "\<exists>s s'. loop_steps k p H loop_init = Inr s \<and> loop_steps (Suc k) p H loop_init = Inr s'
           \<and> l1col s \<le> l1col s'"
proof -
  note fa = first_above_SomeD [OF assms(3)]
  let ?fr = "(H - spec_layer_bottom (zl p) j) / (spec_layer_top (zl p) j - spec_layer_bottom (zl p) j)"
  let ?mid = "\<lambda>k. \<lparr> inML = True, iL = k, l1col = sum (spec_layer_amount p) {0..<k}, out = [] \<rparr>"
  let ?fin = "\<lparr> inML = False, iL = Suc j, l1col = sum (spec_layer_amount p) {0..<j} + spec_layer_amount p j * ?fr,
                 out = [] \<rparr>"
  have mid: "loop_steps k p H loop_init = Inr (?mid k)" if "k \<le> j" for k
    unfolding loop_init_def
    using loop_steps_full [of p 0 k H 0 "[]"] assms(1) fa that by simp
  have bot: "spec_layer_bottom (zl p) j \<le> H"
  proof (cases j)
    case 0
    then show ?thesis using assms(2) by (simp add: spec_layer_bottom_def)
  next
    case (Suc i)
    then show ?thesis using fa(3) by (simp add: layer_bottom_Suc)
  qed
  have body: "loop_body p H (?mid j) = Inr ?fin"
    by (rule loop_body_part [OF fa(1) fa(2) assms(1) bot])
  have fin1: "loop_steps (Suc j) p H loop_init = Inr ?fin"
    using loop_steps_Suc_right [OF mid [of j]] body by (simp add: loop_steps_Suc)
  have fin: "loop_steps (Suc j + m) p H loop_init = Inr ?fin" for m
  proof (induction m)
    case 0
    then show ?case using fin1 by simp
  next
    case (Suc m)
    have "loop_steps (Suc (Suc j + m)) p H loop_init = loop_steps (Suc 0) p H ?fin"
      by (rule loop_steps_Suc_right [OF Suc])
    then show ?case by (simp add: loop_steps_stopped)
  qed
  have fr0: "0 \<le> ?fr" using bot fa(2) by simp
  have aj: "0 \<le> spec_layer_amount p j"
    using layer_amount_nonneg [OF assms(4) assms(1)] fa(1) by simp
  have inc: "0 \<le> spec_layer_amount p j * ?fr" using aj fr0 by (rule mult_nonneg_nonneg)
  consider "k < j" | "k = j" | "j < k" by linarith
  then show ?thesis
  proof cases
    case 1
    have "0 \<le> spec_layer_amount p k"
      using layer_amount_nonneg [OF assms(4) assms(1)] fa(1) 1 by simp
    then show ?thesis using mid [of k] mid [of "Suc k"] 1 by simp
  next
    case 2
    then show ?thesis using mid [of j] fin1 inc by simp
  next
    case 3
    then obtain m where m: "k = Suc j + m" by (metis Suc_leI le_Suc_ex)
    have "loop_steps (Suc k) p H loop_init = Inr ?fin" using fin [of "Suc m"] m by simp
    then show ?thesis using fin [of m] m by simp
  qed
qed


lemma closed_form_sorted:
  assumes "sorted (zl p)" and "spec_first_above (zl p) H = Some j"
  shows "spec_closed_form p H j
         = sum (spec_layer_amount p) {0..<j} + spec_layer_amount p j
             * ((H - spec_layer_bottom (zl p) j)
                / (spec_layer_top (zl p) j - spec_layer_bottom (zl p) j))"
  unfolding spec_closed_form_def full_layers_below [OF assms]
  by (simp add: interv_sum_list_conv_sum_set_nat)

lemma partial_column_sorted:
  assumes "per_layer p" and "sorted (zl p)" and "0 \<le> H" and "spec_first_above (zl p) H = Some j"
  shows "partial_column p H
         = Inr \<lparr> inML = False, iL = Suc j, l1col = spec_closed_form p H j, out = [] \<rparr>"
  unfolding closed_form_sorted [OF assms(2,4)]
  using assms by (intro partial_column_value) auto

section \<open>Reading the observations: lemmas\<close>

lemma split_on_none: "c \<notin> set w \<Longrightarrow> split_on c w = [w]"
  by (induction w) auto

lemma split_on_sep: "c \<notin> set w \<Longrightarrow> split_on c (w @ c # rest) = w # split_on c rest"
  by (induction w) auto

lemma split_on_join:
  "ws \<noteq> [] \<Longrightarrow> list_all (\<lambda>w. CHR '' '' \<notin> set w) ws \<Longrightarrow> split_on CHR '' '' (join_fields ws) = ws"
proof (induction ws rule: join_fields.induct)
  case 1
  then show ?case by simp
next
  case (2 w)
  then show ?case by (simp add: split_on_none)
next
  case (3 w v ws)
  then show ?case by (simp add: split_on_sep)
qed

lemma readline_eof: "py_str_bytes (readline []) = [CHR ''b'', CHR 0x27, CHR 0x27]"
  by (simp add: py_str_bytes_def readline_def)

lemma scan_line_eof: "scan_line L (py_str_bytes (readline [])) la lo ev = Inr (la, lo, ev)"
  by (simp add: readline_eof scan_line_def)

lemma scan_latlon_eof_aux:
  assumes "scan_latlon L f la lo ev = Some y"
  shows "\<not> (f = [] \<and> (la = None \<or> lo = None))"
proof (rule scan_latlon.raw_induct
    [where P = "\<lambda>L f la lo ev y. \<not> (f = [] \<and> (la = None \<or> lo = None))", OF _ assms])
  fix scan :: "pylib \<Rightarrow> string list \<Rightarrow> real option \<Rightarrow> real option \<Rightarrow> event list
      \<Rightarrow> (error + real \<times> real \<times> event list) option"
  fix L' f' la' lo' ev' y'
  assume IH: "\<And>L f la lo ev y. scan L f la lo ev = Some y
      \<Longrightarrow> \<not> (f = [] \<and> (la = None \<or> lo = None))"
  assume body: "(if la' = None \<or> lo' = None
      then case scan_line L' (py_str_bytes (readline f')) la' lo' ev' of
           Inl e \<Rightarrow> Some (Inl e)
         | Inr (la'', lo'', ev'') \<Rightarrow> scan L' (tl f') la'' lo'' ev''
      else Some (Inr (the la', the lo', ev'))) = Some y'"
  show "\<not> (f' = [] \<and> (la' = None \<or> lo' = None))"
  proof
    assume a: "f' = [] \<and> (la' = None \<or> lo' = None)"
    then have "scan L' [] la' lo' ev' = Some y'"
      using body by (simp add: scan_line_eof)
    then show False using IH a by blast
  qed
qed

lemma scan_latlon_eof: "la = None \<or> lo = None \<Longrightarrow> scan_latlon L [] la lo ev = None"
  using scan_latlon_eof_aux [of L "[]" la lo ev] by (cases "scan_latlon L [] la lo ev") auto

lemma readline_Cons: "readline (l # f) = l @ [CHR 0x0A]"
  by (simp add: readline_def)

lemma scan_line_no_label:
  "\<not> has_label ''Location latitude'' l \<Longrightarrow> \<not> has_label ''Location longitude'' l \<Longrightarrow>
   scan_line L (py_str_bytes (readline (l # f))) la lo ev = Inr (la, lo, ev)"
  by (simp add: scan_line_def has_label_def readline_Cons)

lemma scan_line_no_lon:
  "\<not> has_label ''Location longitude'' l \<Longrightarrow>
   scan_line L (py_str_bytes (readline (l # f))) la None ev = Inr (la', lo', ev') \<Longrightarrow> lo' = None"
  by (auto simp: scan_line_def has_label_def readline_Cons split: if_splits sum.splits)

lemma scan_line_no_lat:
  "\<not> has_label ''Location latitude'' l \<Longrightarrow>
   scan_line L (py_str_bytes (readline (l # f))) None lo ev = Inr (la', lo', ev') \<Longrightarrow> la' = None"
  by (auto simp: scan_line_def has_label_def readline_Cons split: if_splits sum.splits)

lemma scan_latlon_no_labels:
  "list_all (\<lambda>l. \<not> has_label ''Location latitude'' l \<and> \<not> has_label ''Location longitude'' l) f \<Longrightarrow>
   la = None \<or> lo = None \<Longrightarrow> scan_latlon L f la lo ev = None"
proof (induction f)
  case Nil
  then show ?case by (simp add: scan_latlon_eof)
next
  case (Cons l f)
  have "scan_latlon L (l # f) la lo ev = scan_latlon L f la lo ev"
    using Cons.prems by (subst scan_latlon.simps) (simp add: scan_line_no_label)
  then show ?case using Cons by simp
qed

lemma scan_latlon_no_lon:
  "list_all (\<lambda>l. \<not> has_label ''Location longitude'' l) f \<Longrightarrow>
   scan_latlon L f la None ev \<noteq> Some (Inr y)"
proof (induction f arbitrary: la ev)
  case Nil
  then show ?case by (simp add: scan_latlon_eof)
next
  case (Cons l f)
  show ?case
  proof (cases "scan_line L (py_str_bytes (readline (l # f))) la None ev")
    case (Inl e)
    then have "scan_latlon L (l # f) la None ev = Some (Inl e)"
      by (subst scan_latlon.simps) simp
    then show ?thesis by simp
  next
    case (Inr t)
    obtain la' lo' ev' where t: "t = (la', lo', ev')" by (cases t) auto
    have "lo' = None" using scan_line_no_lon [of l L f la ev la' lo' ev'] Cons.prems Inr t by simp
    then have "scan_latlon L (l # f) la None ev = scan_latlon L f la' None ev'"
      using Inr t by (subst scan_latlon.simps) simp
    then show ?thesis using Cons.IH [of la' ev'] Cons.prems by simp
  qed
qed

lemma scan_latlon_no_lat:
  "list_all (\<lambda>l. \<not> has_label ''Location latitude'' l) f \<Longrightarrow>
   scan_latlon L f None lo ev \<noteq> Some (Inr y)"
proof (induction f arbitrary: lo ev)
  case Nil
  then show ?case by (simp add: scan_latlon_eof)
next
  case (Cons l f)
  show ?case
  proof (cases "scan_line L (py_str_bytes (readline (l # f))) None lo ev")
    case (Inl e)
    then have "scan_latlon L (l # f) None lo ev = Some (Inl e)"
      by (subst scan_latlon.simps) simp
    then show ?thesis by simp
  next
    case (Inr t)
    obtain la' lo' ev' where t: "t = (la', lo', ev')" by (cases t) auto
    have "la' = None" using scan_line_no_lat [of l L f lo ev la' lo' ev'] Cons.prems Inr t by simp
    then have "scan_latlon L (l # f) None lo ev = scan_latlon L f None lo' ev'"
      using Inr t by (subst scan_latlon.simps) simp
    then show ?thesis using Cons.IH [of lo' ev'] Cons.prems by simp
  qed
qed


section \<open>The example file: lemmas\<close>

lemma obs_fields_ok:
  "CHR '' '' \<notin> set d \<Longrightarrow> CHR '' '' \<notin> set qv \<Longrightarrow> CHR '' '' \<notin> set c \<Longrightarrow> CHR '' '' \<notin> set h
   \<Longrightarrow> CHR '' '' \<notin> set col \<Longrightarrow>
   split_on CHR '' '' (obs_line d qv c h col) = obs_fields d qv c h col"
  unfolding obs_line_def
  by (rule split_on_join) (simp_all add: obs_fields_def list_all_iff)

lemma obs_fields_nth:
  "length (obs_fields d qv c h col) = 69"
  "hd (obs_fields d qv c h col) = d"
  "obs_fields d qv c h col ! 52 = qv"
  "obs_fields d qv c h col ! 55 = c"
  "obs_fields d qv c h col ! 67 = h"
  "obs_fields d qv c h col ! 68 = col"
  by (simp_all add: obs_fields_def nth_Cons' nth_append)

lemma parse_example_1:
  "parse_row example_lib (obs_line ''20210101T000000.0z'' ''10'' ''1.0e-7'' ''0.12'' ''1.0e-4'') = Inr example_row"
  by (simp add: parse_row_def obs_fields_ok obs_fields_nth example_lib_def example_row_def)

lemma read_csv_example: "read_csv example_lib example_obs = Inr example_rows"
  by (simp add: example_lib_def example_obs_def)

lemma scan_line_lat:
  "scan_line example_lib (py_str_bytes (readline (''Location latitude [deg]: 38.9'' # f))) None None []
   = Inr (Some 38.9, None, [Msg_latitude 38.9])"
  by (simp add: scan_line_def readline_def py_str_bytes_def escape_byte_def parse_coord_def
      example_lib_def)

lemma scan_line_lon:
  "scan_line example_lib (py_str_bytes (readline (''Location longitude [deg]: -77.0'' # f)))
     (Some 38.9) None [Msg_latitude 38.9]
   = Inr (Some 38.9, Some (- 77), [Msg_latitude 38.9, Msg_longitude (- 77)])"
  by (simp add: scan_line_def readline_def py_str_bytes_def escape_byte_def parse_coord_def
      example_lib_def)

lemma scan_example:
  "scan_latlon example_lib example_obs None None []
   = Some (Inr (38.9, - 77, [Msg_latitude 38.9, Msg_longitude (- 77)]))"
proof -
  have "scan_latlon example_lib example_obs None None []
      = scan_latlon example_lib (tl example_obs) (Some 38.9) None [Msg_latitude 38.9]"
    by (subst scan_latlon.simps) (simp add: example_obs_def scan_line_lat)
  also have "\<dots> = scan_latlon example_lib (tl (tl example_obs)) (Some 38.9) (Some (- 77))
      [Msg_latitude 38.9, Msg_longitude (- 77)]"
    by (subst scan_latlon.simps) (simp add: example_obs_def scan_line_lon)
  also have "\<dots> = Some (Inr (38.9, - 77, [Msg_latitude 38.9, Msg_longitude (- 77)]))"
    by (subst scan_latlon.simps) simp
  finally show ?thesis .
qed

lemma ex_label_simps:
  "has_label ''Location longitude'' ''Location latitude [deg]: 38.9'' = False"
  "has_label ''Location longitude'' ''---'' = False"
  "has_label ''Location longitude'' ''header'' = False"
  by (simp_all add: has_label_def py_str_bytes_def escape_byte_def)


lemma example_first_above: "spec_first_above (zl example_profile) 120 = Some 1"
  by (simp add: spec_first_above_def example_profile_def spec_layer_top_def upt_rec)


section \<open>The cache of datasets: lemmas\<close>

lemma ifile_ne_ofile: "ifile_of u \<noteq> ofile_of v"
  by (simp add: ifile_of_def ofile_of_def)

lemma cached_or_open_spec:
  "spec_resolve fs fnl dsl col p = Some ds \<Longrightarrow>
   cached_or_open fs col p fnl dsl = Inr (ds, fnl(col \<mapsto> p), dsl(col \<mapsto> ds), spec_io fnl col p)"
  by (auto simp: spec_resolve_def cached_or_open_def open_dataset_def spec_io_def fun_upd_idem
      split: if_splits option.splits content.splits)

lemma cached_or_open_missing:
  "fnl col \<noteq> Some p \<Longrightarrow> fs p = None \<Longrightarrow> cached_or_open fs col p fnl dsl = Inl (FileNotFoundError p)"
  by (simp add: cached_or_open_def open_dataset_def)

lemma spec_resolve_isfile:
  "spec_resolve fs fnl dsl col p = Some ds \<Longrightarrow> fnl col = Some p \<or> isfile fs p"
  by (auto simp: spec_resolve_def isfile_def split: if_splits option.splits)

lemma open_collections_spec:
  assumes "pc = replace_all ''<col>'' ''chm'' (strftime L (round_H (date r)) (cf_template a))"
    and "pm = replace_all ''<col>'' ''met'' (strftime L (round_H (date r)) (cf_template a))"
    and "pp = strftime L (date r) (pbl_template a)"
    and c: "spec_resolve fs fnl dsl ''chm'' pc = Some dsc"
    and m: "spec_resolve fs fnl dsl ''met'' pm = Some dsm"
    and p: "spec_resolve fs fnl dsl ''pbl'' pp = Some dsp"
  shows "open_collections L fs a r fnl dsl
         = Inr (Some (dsc, dsm, dsp),
                fnl(''chm'' \<mapsto> pc, ''met'' \<mapsto> pm, ''pbl'' \<mapsto> pp),
                dsl(''chm'' \<mapsto> dsc, ''met'' \<mapsto> dsm, ''pbl'' \<mapsto> dsp),
                spec_io fnl ''chm'' pc @ spec_io fnl ''met'' pm @ spec_io fnl ''pbl'' pp)"
proof -
  have m1: "spec_resolve fs (fnl(''chm'' \<mapsto> pc)) (dsl(''chm'' \<mapsto> dsc)) ''met'' pm = Some dsm"
    using m by (auto simp: spec_resolve_def split: if_splits)
  have p2: "spec_resolve fs (fnl(''chm'' \<mapsto> pc, ''met'' \<mapsto> pm))
              (dsl(''chm'' \<mapsto> dsc, ''met'' \<mapsto> dsm)) ''pbl'' pp = Some dsp"
    using p by (auto simp: spec_resolve_def split: if_splits)
  have io1: "spec_io (fnl(''chm'' \<mapsto> pc)) ''met'' pm = spec_io fnl ''met'' pm"
    by (simp add: spec_io_def)
  have io2: "spec_io (fnl(''chm'' \<mapsto> pc, ''met'' \<mapsto> pm)) ''pbl'' pp = spec_io fnl ''pbl'' pp"
    by (simp add: spec_io_def)
  have early: "\<not> (fnl ''chm'' \<noteq> Some pc \<and> \<not> isfile fs pc)"
    using spec_resolve_isfile [OF c] by auto
  show ?thesis
    unfolding open_collections_def Let_def assms(1-3) [symmetric]
    using early
    by (simp add: cached_or_open_spec [OF c] cached_or_open_spec [OF m1]
        cached_or_open_spec [OF p2] io1 io2)
qed

lemma round_H_nearest: "round_H t mod hour = 0 \<and> \<bar>round_H t - t\<bar> \<le> hour div 2"
proof -
  define qq where "qq = t div 3600000000"
  define rr where "rr = t mod 3600000000"
  have t: "t = qq * 3600000000 + rr" by (simp add: qq_def rr_def)
  have r: "0 \<le> rr" "rr < 3600000000" by (simp_all add: rr_def)
  have "round_H t = (if rr > 1800000000 \<or> (rr = 1800000000 \<and> odd qq)
                     then (qq + 1) * 3600000000 else qq * 3600000000)"
    by (simp add: round_H_def hour_def Let_def qq_def rr_def)
  then show ?thesis using t r by (auto simp: hour_def)
qed


section \<open>The run: lemmas\<close>

lemma truncate_merged_row: "row.truncate (merged_row r m la lo) = r"
  by (cases m) (simp add: merged_row_def row.truncate_def)

lemma populate_rows:
  "populate L fs a la lo rs fnl dsl = Inr (ms, ev) \<Longrightarrow> map row.truncate ms = rs"
proof (induction rs arbitrary: fnl dsl ms ev)
  case Nil
  then show ?case by simp
next
  case (Cons r rs)
  then show ?case
    by (auto simp: truncate_merged_row split: sum.splits prod.splits)
qed

lemma select_rows_iff:
  "r \<in> set (select_rows m pand) \<longleftrightarrow>
     r \<in> set pand \<and> MINDATE \<le> date r \<and> date r \<le> m
     \<and> 0 < pandora_no2_l1hgt r \<and> pandora_no2_l1hgt r < 15"
  by (auto simp: select_rows_def)

lemma maxdate_of_midnight:
  "maxdate_of now mod day = 0 \<and> maxdate_of now \<le> now - 3 * day \<and> now - 3 * day < maxdate_of now + day"
proof -
  have d: "(0::int) < day" by (simp add: day_def hour_def)
  define x where "x = now - 3 * day"
  have e: "x = x div day * day + x mod day" by simp
  have "0 \<le> x mod day" "x mod day < day" using d by simp_all
  then have "x div day * day \<le> x" "x < x div day * day + day" using e by linarith+
  then show ?thesis by (simp add: maxdate_of_def x_def)
qed

lemma main_skip:
  assumes "load_json (files w) (locations a) = Inr locs" and "nsite a < int (length locs)"
    and "py_index locs (nsite a) = Inr (Some url)"
    and "\<not> isfile (files w) (ifile_of url) \<or> isfile (files w) (ofile_of url)"
  shows "main L a w = Some (Inr (w\<lparr> console := console w @
           [if isfile (files w) (ifile_of url) then Msg_out_exists (ofile_of url)
            else Msg_obs_missing (ifile_of url)] \<rparr>))"
  using assms by (auto simp: main_def)

lemma main_written:
  assumes "load_json (files w) (locations a) = Inr locs" and "nsite a < int (length locs)"
    and "py_index locs (nsite a) = Inr (Some url)"
    and "isfile (files w) (ifile_of url)" and "\<not> isfile (files w) (ofile_of url)"
    and "read_pandora L (files w) (ifile_of url) = Some (Inr (pand, la, lo, ev))"
    and "populate L (files w) a la lo (select_rows (maxdate_of (today w)) pand) Map.empty Map.empty
           = Inr (rows, ev')"
  shows "main L a w = Some (Inr (w\<lparr>
           files := (files w)(ofile_of url \<mapsto> Csv rows),
           console := console w @ ev @ ev'
             @ [Io_to_csv (ofile_of url), Msg_written (ofile_of url)] \<rparr>))"
  using assms by (simp add: main_def)

lemma main_returns_cases:
  assumes "load_json (files w) (locations a) = Inr locs" and "nsite a < int (length locs)"
    and "py_index locs (nsite a) = Inr (Some url)"
    and "main L a w = Some (Inr w1)"
  shows "(\<not> isfile (files w) (ifile_of url) \<or> isfile (files w) (ofile_of url))
          \<and> files w1 = files w
         \<or> (\<exists>pand la lo ev rows ev'. isfile (files w) (ifile_of url)
              \<and> \<not> isfile (files w) (ofile_of url)
              \<and> read_pandora L (files w) (ifile_of url) = Some (Inr (pand, la, lo, ev))
              \<and> populate L (files w) a la lo (select_rows (maxdate_of (today w)) pand)
                   Map.empty Map.empty = Inr (rows, ev')
              \<and> w1 = w\<lparr> files := (files w)(ofile_of url \<mapsto> Csv rows),
                   console := console w @ ev @ ev'
                     @ [Io_to_csv (ofile_of url), Msg_written (ofile_of url)] \<rparr>)"
  using assms by (auto simp: main_def split: if_splits option.splits sum.splits prod.splits)

lemma open_collections_qval:
  "open_collections L fs a (r\<lparr> pandora_no2_qval := v \<rparr>) fnl dsl = open_collections L fs a r fnl dsl"
  by (simp add: open_collections_def Let_def cong: sum.case_cong prod.case_cong if_cong)

lemma derive_values_qval:
  "derive_values dsc dsm dsp (r\<lparr> pandora_no2_qval := v \<rparr>) la lo = derive_values dsc dsm dsp r la lo"
  by (simp add: derive_values_def Let_def cong: sum.case_cong if_cong)

lemma match_cf_qval:
  "match_cf L fs a (r\<lparr> pandora_no2_qval := v \<rparr>) la lo fnl dsl = match_cf L fs a r la lo fnl dsl"
  unfolding match_cf_def open_collections_qval derive_values_qval ..

lemma parse_row_qval:
  "parse_row L s = Inr r \<Longrightarrow> py_int L (split_on CHR '' '' s ! 52) = Some (pandora_no2_qval r)"
  by (auto simp: parse_row_def Let_def split: option.splits if_splits)


section \<open>The example run: lemmas\<close>

lemma example_partial_column:
  "partial_column example_profile 120
   = Inr \<lparr> inML = False, iL = 2, l1col = spec_closed_form example_profile 120 1, out = [] \<rparr>"
proof -
  have a: "per_layer example_profile" by (simp add: per_layer_def example_profile_def)
  have b: "sorted (zl example_profile)" by (simp add: example_profile_def)
  have c: "(0::real) \<le> 120" by simp
  show ?thesis
    using partial_column_sorted [OF a b c example_first_above] by (simp add: numeral_2_eq_2)
qed

lemma example_derive_values:
  "derive_values example_chm example_met example_pbl example_row la lo
   = Inr ((sfcmr_of (2 / 10 ^ 8), sfcconc_of (2 / 10 ^ 8) 101325 288,
           spec_closed_form example_profile 120 1, 800,
           sfcmr_pandora_of (1 / 10 ^ 7) 101325 288 0.01), [])"
proof -
  have p: "\<lparr> delp = rev [100, 100, 100], zl = rev [250, 150, 50], q = rev [0.01, 0.01, 0.01],
             no2 = rev [2 / 10 ^ 8, 2 / 10 ^ 8, 2 / 10 ^ 8] \<rparr> = example_profile"
    by (simp add: example_profile_def)
  have h: "pandora_no2_l1hgt example_row * 1000 = 120" by (simp add: example_row_def)
  show ?thesis
    unfolding derive_values_def Let_def h
    by (simp add: get_surface_def get_bottom_def get_column_def example_chm_def example_met_def
        example_pbl_def del: rev.simps)
       (simp add: p [simplified] example_partial_column example_row_def)
qed


lemma example_paths:
  "replace_all ''<col>'' ''chm'' (strftime example_lib t (cf_template example_args)) = ''cf_chm.nc''"
  "replace_all ''<col>'' ''met'' (strftime example_lib t (cf_template example_args)) = ''cf_met.nc''"
  "strftime example_lib t (pbl_template example_args) = ''pbl.nc''"
  by (simp_all add: example_lib_def example_args_def)

lemma example_open_collections:
  "open_collections example_lib example_files example_args r Map.empty Map.empty
   = Inr (Some (example_chm, example_met, example_pbl), example_fnl, example_dsl, example_opened)"
proof -
  have c: "spec_resolve example_files Map.empty Map.empty ''chm'' ''cf_chm.nc'' = Some example_chm"
    by (simp add: spec_resolve_def example_files_def)
  have m: "spec_resolve example_files Map.empty Map.empty ''met'' ''cf_met.nc'' = Some example_met"
    by (simp add: spec_resolve_def example_files_def)
  have p: "spec_resolve example_files Map.empty Map.empty ''pbl'' ''pbl.nc'' = Some example_pbl"
    by (simp add: spec_resolve_def example_files_def)
  have "open_collections example_lib example_files example_args r Map.empty Map.empty
      = Inr (Some (example_chm, example_met, example_pbl),
             Map.empty(''chm'' \<mapsto> ''cf_chm.nc'', ''met'' \<mapsto> ''cf_met.nc'', ''pbl'' \<mapsto> ''pbl.nc''),
             Map.empty(''chm'' \<mapsto> example_chm, ''met'' \<mapsto> example_met, ''pbl'' \<mapsto> example_pbl),
             spec_io Map.empty ''chm'' ''cf_chm.nc'' @ spec_io Map.empty ''met'' ''cf_met.nc''
               @ spec_io Map.empty ''pbl'' ''pbl.nc'')"
    by (rule open_collections_spec [OF example_paths(1) [symmetric]
          example_paths(2) [symmetric] example_paths(3) [symmetric] c m p])
  then show ?thesis
    by (simp add: example_fnl_def example_dsl_def example_opened_def spec_io_def)
qed

lemma example_match_cf:
  "match_cf example_lib example_files example_args example_row la lo Map.empty Map.empty
   = Inr (example_values, example_fnl, example_dsl, example_opened)"
  by (simp add: match_cf_def example_open_collections example_derive_values example_values_def)

lemma example_populate:
  "populate example_lib example_files example_args la lo [example_row] Map.empty Map.empty
   = Inr ([merged_row example_row example_values la lo], example_opened)"
  by (simp add: example_match_cf)

lemma example_parse_rows:
  "parse_rows example_lib example_rows = Inr [example_row, example_row_old, example_row_high]"
  by (simp add: example_rows_def parse_row_def obs_fields_ok obs_fields_nth example_lib_def
      example_row_def example_row_old_def example_row_high_def)

lemma example_read_pandora_any:
  assumes "fs ''obs/P1.txt'' = Some (Text example_obs)"
  shows "read_pandora example_lib fs ''obs/P1.txt''
   = Some (Inr ([example_row, example_row_old, example_row_high], 38.9, - 77,
                [Msg_reading ''obs/P1.txt'', Io_read_obs ''obs/P1.txt'',
                 Msg_latitude 38.9, Msg_longitude (- 77)]))"
proof -
  have "read_text fs ''obs/P1.txt'' = Inr example_obs"
    using assms by (simp add: read_text_def)
  then show ?thesis
    by (simp add: read_pandora_def read_csv_example example_parse_rows scan_example)
qed

lemma example_read_pandora:
  "read_pandora example_lib example_files ''obs/P1.txt''
   = Some (Inr ([example_row, example_row_old, example_row_high], 38.9, - 77,
                [Msg_reading ''obs/P1.txt'', Io_read_obs ''obs/P1.txt'',
                 Msg_latitude 38.9, Msg_longitude (- 77)]))"
  by (rule example_read_pandora_any) (simp add: example_files_def)

lemma example_select_rows:
  "select_rows (maxdate_of (19000 * day + 5 * hour)) [example_row, example_row_old, example_row_high]
   = [example_row]"
  by (simp add: select_rows_def maxdate_of_def MINDATE_def day_def hour_def example_row_def
      example_row_old_def example_row_high_def)

lemma example_names:
  "ifile_of example_url = ''obs/P1.txt''"
  "ofile_of example_url = ''merged_csv/P1+GEOSCF.csv''"
  by (simp_all add: ifile_of_def ofile_of_def basename_of_def example_url_def)

lemma example_prelude:
  "load_json (files example_world) (locations example_args) = Inr [Some example_url]"
  "nsite example_args < int (length [Some example_url])"
  "py_index [Some example_url] (nsite example_args) = Inr (Some example_url)"
  "isfile (files example_world) (ifile_of example_url)"
  "\<not> isfile (files example_world) (ofile_of example_url)"
  by (simp_all add: load_json_def example_world_def example_files_def example_args_def
      py_index_def isfile_def example_names)

lemma example_main: "main example_lib example_args example_world = Some (Inr example_written)"
proof -
  have fs: "files example_world = example_files" "today example_world = 19000 * day + 5 * hour"
    "console example_world = []"
    by (simp_all add: example_world_def)
  have rp: "read_pandora example_lib (files example_world) (ifile_of example_url)
      = Some (Inr ([example_row, example_row_old, example_row_high], 38.9, - 77,
                [Msg_reading ''obs/P1.txt'', Io_read_obs ''obs/P1.txt'',
                 Msg_latitude 38.9, Msg_longitude (- 77)]))"
    unfolding fs example_names by (rule example_read_pandora)
  have po: "populate example_lib (files example_world) example_args 38.9 (- 77)
        (select_rows (maxdate_of (today example_world))
           [example_row, example_row_old, example_row_high]) Map.empty Map.empty
      = Inr ([merged_row example_row example_values 38.9 (- 77)], example_opened)"
    unfolding fs example_select_rows by (rule example_populate)
  show ?thesis
    unfolding main_written [OF example_prelude rp po]
    by (simp add: example_names example_written_def example_world_def)
qed


section \<open>A file without its longitude: lemmas\<close>

lemma contains_hd: "contains sub s \<Longrightarrow> sub \<noteq> [] \<Longrightarrow> hd sub \<in> set s"
proof (induction s)
  case Nil
  then show ?case by simp
next
  case (Cons x xs)
  show ?case
  proof (cases "take (length sub) (x # xs) = sub")
    case True
    then have "hd sub = x" using Cons.prems(2) by (cases sub) auto
    then show ?thesis by simp
  next
    case False
    then show ?thesis using Cons by simp
  qed
qed

lemma set_escape_byte:
  "set (escape_byte c) \<subseteq> {c, CHR 0x5C, CHR ''n'', CHR ''r'', CHR ''t'', CHR 0x27}"
  by (simp add: escape_byte_def)

lemma set_py_str_bytes:
  "set (py_str_bytes b) \<subseteq> set b \<union> {CHR ''b'', CHR 0x5C, CHR ''n'', CHR ''r'', CHR ''t'', CHR 0x27}"
  using set_escape_byte by (fastforce simp: py_str_bytes_def)

lemma no_L_no_label:
  assumes "CHR ''L'' \<notin> set l"
  shows "\<not> has_label (CHR ''L'' # rest) l"
proof
  assume "has_label (CHR ''L'' # rest) l"
  then have "CHR ''L'' \<in> set (py_str_bytes (l @ [CHR 0x0A]))"
    using contains_hd [of "CHR ''L'' # rest" "py_str_bytes (l @ [CHR 0x0A])"]
    by (simp add: has_label_def)
  then show False using set_py_str_bytes [of "l @ [CHR 0x0A]"] assms by auto
qed

lemma set_join_fields: "set (join_fields ws) \<subseteq> \<Union> (set ` set ws) \<union> {CHR '' ''}"
  by (induction ws rule: join_fields.induct) auto

lemma obs_line_no_L:
  assumes "CHR ''L'' \<notin> set d" "CHR ''L'' \<notin> set qv" "CHR ''L'' \<notin> set c" "CHR ''L'' \<notin> set h"
    "CHR ''L'' \<notin> set col"
  shows "CHR ''L'' \<notin> set (obs_line d qv c h col)"
proof -
  have "\<Union> (set ` set (obs_fields d qv c h col)) \<subseteq> set d \<union> set qv \<union> set c \<union> set h \<union> set col \<union> {CHR ''0''}"
    by (auto simp: obs_fields_def)
  then have "set (join_fields (obs_fields d qv c h col))
      \<subseteq> set d \<union> set qv \<union> set c \<union> set h \<union> set col \<union> {CHR ''0'', CHR '' ''}"
    using set_join_fields [of "obs_fields d qv c h col"] by blast
  then show ?thesis
    using assms unfolding obs_line_def by auto
qed

lemma example_rows_no_label:
  "list_all (\<lambda>l. \<not> has_label ''Location latitude'' l \<and> \<not> has_label ''Location longitude'' l)
     (replicate 92 ''---'' @ [''header''] @ example_rows)"
proof -
  have "list_all (\<lambda>l. CHR ''L'' \<notin> set l) (replicate 92 ''---'' @ [''header''] @ example_rows)"
    by (simp add: list_all_iff example_rows_def obs_line_no_L)
  then show ?thesis
    using no_L_no_label by (auto simp: list_all_iff)
qed

lemma example_no_lon:
  "list_all (\<lambda>l. \<not> has_label ''Location longitude'' l) example_obs_no_lon"
proof -
  have "\<not> has_label ''Location longitude'' ''Location latitude [deg]: 38.9''"
    by (simp add: has_label_def py_str_bytes_def escape_byte_def)
  then show ?thesis
    using example_rows_no_label by (auto simp: example_obs_no_lon_def list_all_iff)
qed

lemma scan_example_no_lon: "scan_latlon example_lib example_obs_no_lon None None [] = None"
proof -
  have "scan_latlon example_lib example_obs_no_lon None None []
      = scan_latlon example_lib (replicate 92 ''---'' @ [''header''] @ example_rows)
          (Some 38.9) None [Msg_latitude 38.9]"
    by (subst scan_latlon.simps) (simp add: example_obs_no_lon_def scan_line_lat)
  also have "\<dots> = None"
    by (rule scan_latlon_no_labels [OF example_rows_no_label]) simp
  finally show ?thesis .
qed

lemma read_csv_example_no_lon: "read_csv example_lib example_obs_no_lon = Inr example_rows"
  by (simp add: example_lib_def example_obs_no_lon_def)

lemma example_read_pandora_no_lon:
  "read_pandora example_lib example_files_no_lon ''obs/P1.txt'' = None"
proof -
  have "read_text example_files_no_lon ''obs/P1.txt'' = Inr example_obs_no_lon"
    by (simp add: read_text_def example_files_no_lon_def)
  then show ?thesis
    by (simp add: read_pandora_def read_csv_example_no_lon example_parse_rows scan_example_no_lon)
qed

lemma main_never_returns:
  assumes "load_json (files w) (locations a) = Inr locs" and "nsite a < int (length locs)"
    and "py_index locs (nsite a) = Inr (Some url)"
    and "isfile (files w) (ifile_of url)" and "\<not> isfile (files w) (ofile_of url)"
    and "read_pandora L (files w) (ifile_of url) = None"
  shows "main L a w = None"
  using assms by (simp add: main_def)

lemma example_prelude_no_lon:
  "load_json (files (example_world\<lparr> files := example_files_no_lon \<rparr>)) (locations example_args)
   = Inr [Some example_url]"
  "isfile (files (example_world\<lparr> files := example_files_no_lon \<rparr>)) (ifile_of example_url)"
  "\<not> isfile (files (example_world\<lparr> files := example_files_no_lon \<rparr>)) (ofile_of example_url)"
  by (simp_all add: load_json_def example_files_no_lon_def example_args_def isfile_def
      example_names)

lemma example_main_no_lon:
  "main example_lib example_args (example_world\<lparr> files := example_files_no_lon \<rparr>) = None"
proof -
  have "read_pandora example_lib (files (example_world\<lparr> files := example_files_no_lon \<rparr>))
      (ifile_of example_url) = None"
    by (simp add: example_names example_read_pandora_no_lon)
  then show ?thesis
    by (rule main_never_returns [OF example_prelude_no_lon(1) example_prelude(2,3)
          example_prelude_no_lon(2,3)])
qed


section \<open>Runs that end early: lemmas\<close>

lemma main_raises:
  assumes "load_json (files w) (locations a) = Inr locs" and "nsite a < int (length locs)"
    and "py_index locs (nsite a) = Inr (Some url)"
    and "isfile (files w) (ifile_of url)" and "\<not> isfile (files w) (ofile_of url)"
    and "read_pandora L (files w) (ifile_of url) = Some (Inr (pand, la, lo, ev))"
    and "populate L (files w) a la lo (select_rows (maxdate_of (today w)) pand) Map.empty Map.empty
           = Inl e"
  shows "main L a w = Some (Inl e)"
  using assms by (simp add: main_def)

lemma open_collections_no_met:
  assumes c: "spec_resolve fs fnl dsl ''chm''
             (replace_all ''<col>'' ''chm'' (strftime L (round_H (date r)) (cf_template a)))
           = Some dsc"
    and m: "fnl ''met''
             \<noteq> Some (replace_all ''<col>'' ''met'' (strftime L (round_H (date r)) (cf_template a)))"
    and n: "fs (replace_all ''<col>'' ''met'' (strftime L (round_H (date r)) (cf_template a))) = None"
  shows "open_collections L fs a r fnl dsl
         = Inl (FileNotFoundError
                 (replace_all ''<col>'' ''met'' (strftime L (round_H (date r)) (cf_template a))))"
proof -
  have early: "\<not> (fnl ''chm'' \<noteq> Some (replace_all ''<col>'' ''chm''
                  (strftime L (round_H (date r)) (cf_template a)))
      \<and> \<not> isfile fs (replace_all ''<col>'' ''chm'' (strftime L (round_H (date r)) (cf_template a))))"
    using spec_resolve_isfile [OF c] by auto
  have m1: "(fnl(''chm'' \<mapsto> replace_all ''<col>'' ''chm''
                  (strftime L (round_H (date r)) (cf_template a)))) ''met''
      \<noteq> Some (replace_all ''<col>'' ''met'' (strftime L (round_H (date r)) (cf_template a)))"
    using m by simp
  have miss: "cached_or_open fs ''met''
        (replace_all ''<col>'' ''met'' (strftime L (round_H (date r)) (cf_template a)))
        (fnl(''chm'' \<mapsto> replace_all ''<col>'' ''chm''
                  (strftime L (round_H (date r)) (cf_template a)))) dsl'
      = Inl (FileNotFoundError
              (replace_all ''<col>'' ''met'' (strftime L (round_H (date r)) (cf_template a))))"
    for dsl'
    using m1 n by (simp add: cached_or_open_def open_dataset_def)
  show ?thesis
    unfolding open_collections_def Let_def
    using early by (simp add: cached_or_open_spec [OF c] miss)
qed

lemma match_cf_no_chm:
  assumes "fnl ''chm''
             \<noteq> Some (replace_all ''<col>'' ''chm'' (strftime L (round_H (date r)) (cf_template a)))"
    and "fs (replace_all ''<col>'' ''chm'' (strftime L (round_H (date r)) (cf_template a))) = None"
  shows "match_cf L fs a r la lo fnl dsl
         = Inr ((None, None, None, None, None), fnl, dsl,
                [Msg_not_found (replace_all ''<col>'' ''chm''
                   (strftime L (round_H (date r)) (cf_template a)))])"
  using assms by (simp add: match_cf_def open_collections_def Let_def isfile_def)

lemma example_prelude_no_met:
  "load_json (files (example_world\<lparr> files := example_files_no_met \<rparr>)) (locations example_args)
   = Inr [Some example_url]"
  "isfile (files (example_world\<lparr> files := example_files_no_met \<rparr>)) (ifile_of example_url)"
  "\<not> isfile (files (example_world\<lparr> files := example_files_no_met \<rparr>)) (ofile_of example_url)"
  "read_pandora example_lib (files (example_world\<lparr> files := example_files_no_met \<rparr>))
     (ifile_of example_url)
   = Some (Inr ([example_row, example_row_old, example_row_high], 38.9, - 77,
                [Msg_reading ''obs/P1.txt'', Io_read_obs ''obs/P1.txt'',
                 Msg_latitude 38.9, Msg_longitude (- 77)]))"
  "select_rows (maxdate_of (today (example_world\<lparr> files := example_files_no_met \<rparr>)))
     [example_row, example_row_old, example_row_high] = [example_row]"
  "files (example_world\<lparr> files := example_files_no_met \<rparr>)
     (replace_all ''<col>'' ''chm''
        (strftime example_lib (round_H (date example_row)) (cf_template example_args)))
   = Some (NetCDF example_chm)"
  "files (example_world\<lparr> files := example_files_no_met \<rparr>)
     (replace_all ''<col>'' ''met''
        (strftime example_lib (round_H (date example_row)) (cf_template example_args)))
   = None"
proof -
  show "load_json (files (example_world\<lparr> files := example_files_no_met \<rparr>)) (locations example_args)
   = Inr [Some example_url]"
    by (simp add: load_json_def example_files_no_met_def example_args_def)
  show "isfile (files (example_world\<lparr> files := example_files_no_met \<rparr>)) (ifile_of example_url)"
    by (simp add: isfile_def example_files_no_met_def example_names)
  show "\<not> isfile (files (example_world\<lparr> files := example_files_no_met \<rparr>)) (ofile_of example_url)"
    by (simp add: isfile_def example_files_no_met_def example_names)
  show "read_pandora example_lib (files (example_world\<lparr> files := example_files_no_met \<rparr>))
     (ifile_of example_url)
   = Some (Inr ([example_row, example_row_old, example_row_high], 38.9, - 77,
                [Msg_reading ''obs/P1.txt'', Io_read_obs ''obs/P1.txt'',
                 Msg_latitude 38.9, Msg_longitude (- 77)]))"
    unfolding example_names
    by (rule example_read_pandora_any) (simp add: example_files_no_met_def)
  show "select_rows (maxdate_of (today (example_world\<lparr> files := example_files_no_met \<rparr>)))
     [example_row, example_row_old, example_row_high] = [example_row]"
    using example_select_rows by (simp add: example_world_def)
  show "files (example_world\<lparr> files := example_files_no_met \<rparr>)
     (replace_all ''<col>'' ''chm''
        (strftime example_lib (round_H (date example_row)) (cf_template example_args)))
   = Some (NetCDF example_chm)"
    unfolding example_paths by (simp add: example_files_no_met_def)
  show "files (example_world\<lparr> files := example_files_no_met \<rparr>)
     (replace_all ''<col>'' ''met''
        (strftime example_lib (round_H (date example_row)) (cf_template example_args)))
   = None"
    unfolding example_paths by (simp add: example_files_no_met_def)
qed

lemma example_written_prelude:
  "load_json (files example_written) (locations example_args) = Inr [Some example_url]"
  "isfile (files example_written) (ifile_of example_url)"
  "isfile (files example_written) (ofile_of example_url)"
  "locations example_args \<noteq> ofile_of example_url"
  by (simp_all add: load_json_def example_written_def example_files_def example_args_def
      isfile_def example_names)

section \<open>The quality flag: lemmas\<close>

lemma differ_only_in_flag_update:
  "differ_only_in_flag r r' \<Longrightarrow> r' = r\<lparr> pandora_no2_qval := pandora_no2_qval r' \<rparr>"
  by (simp add: differ_only_in_flag_def)

lemma filter_related:
  "list_all2 R xs ys \<Longrightarrow> (\<And>x y. R x y \<Longrightarrow> P x = Q y) \<Longrightarrow>
   list_all2 R (filter P xs) (filter Q ys)"
  by (induction rule: list_all2_induct) auto

lemma differ_fields:
  assumes "differ_only_in_flag r r'"
  shows "date r' = date r" "pandora_no2_l1hgt r' = pandora_no2_l1hgt r"
    "pandora_no2_sfcconc r' = pandora_no2_sfcconc r" "pandora_no2_l1col r' = pandora_no2_l1col r"
proof -
  have e: "r' = r\<lparr> pandora_no2_qval := pandora_no2_qval r' \<rparr>"
    using assms by (simp add: differ_only_in_flag_def)
  show "date r' = date r" by (subst e) simp
  show "pandora_no2_l1hgt r' = pandora_no2_l1hgt r" by (subst e) simp
  show "pandora_no2_sfcconc r' = pandora_no2_sfcconc r" by (subst e) simp
  show "pandora_no2_l1col r' = pandora_no2_l1col r" by (subst e) simp
qed

lemma select_rows_flag:
  assumes "list_all2 differ_only_in_flag rs rs'"
  shows "list_all2 differ_only_in_flag (select_rows m rs) (select_rows m rs')"
  unfolding select_rows_def
  by (intro filter_related assms) (simp_all add: differ_fields)

lemma merged_row_flag:
  "merged_row (r\<lparr> pandora_no2_qval := v \<rparr>) mv la lo
     = (merged_row r mv la lo)\<lparr> pandora_no2_qval := v \<rparr>"
  by (cases mv) (simp add: merged_row_def)

lemma populate_flag:
  assumes "list_all2 differ_only_in_flag rs rs'"
  shows "populate L fs a la lo rs' fnl dsl
         = (case populate L fs a la lo rs fnl dsl of
              Inl e \<Rightarrow> Inl e
            | Inr (ms, ev) \<Rightarrow> Inr (with_flags_of ms rs', ev))"
  using assms
proof (induction arbitrary: fnl dsl rule: list_all2_induct)
  case Nil
  then show ?case by (simp add: with_flags_of_def)
next
  case (Cons r rs r' rs')
  have e: "r' = r\<lparr> pandora_no2_qval := pandora_no2_qval r' \<rparr>"
    using Cons.hyps(1) by (rule differ_only_in_flag_update)
  have m: "match_cf L fs a r' la lo fnl dsl = match_cf L fs a r la lo fnl dsl"
    by (subst e) (rule match_cf_qval)
  have mr: "merged_row r' mv la lo = (merged_row r mv la lo)\<lparr> pandora_no2_qval := pandora_no2_qval r' \<rparr>"
    for mv
    by (subst e) (simp add: merged_row_flag)
  show ?case
  proof (cases "match_cf L fs a r la lo fnl dsl")
    case (Inl e)
    then show ?thesis using m by simp
  next
    case (Inr t)
    obtain mv fnl' dsl' ev where t: "t = (mv, fnl', dsl', ev)" by (cases t) auto
    show ?thesis
      using Inr t m Cons.IH [of fnl' dsl'] mr
      by (auto simp: with_flags_of_def split: sum.splits)
  qed
qed


lemma read_pandora_text:
  "read_pandora L fs p = Some (Inr x) \<Longrightarrow> \<exists>ls. fs p = Some (Text ls)"
  by (auto simp: read_pandora_def read_text_def split: sum.splits option.splits content.splits)

lemma isfile_text: "fs po = Some (Text t) \<Longrightarrow> isfile (fs(po \<mapsto> Text t')) p = isfile fs p"
  by (simp add: isfile_def)

lemma open_dataset_text:
  "fs po = Some (Text t) \<Longrightarrow> open_dataset (fs(po \<mapsto> Text t')) p = open_dataset fs p"
  by (simp add: open_dataset_def)

lemma load_json_text:
  "fs po = Some (Text t) \<Longrightarrow> load_json (fs(po \<mapsto> Text t')) p = load_json fs p"
  by (simp add: load_json_def)

lemma cached_or_open_text:
  "fs po = Some (Text t) \<Longrightarrow>
   cached_or_open (fs(po \<mapsto> Text t')) col p fnl dsl = cached_or_open fs col p fnl dsl"
  by (simp add: cached_or_open_def open_dataset_text [of fs po t t'])

lemma open_collections_text:
  assumes "fs po = Some (Text t)"
  shows "open_collections L (fs(po \<mapsto> Text t')) a r fnl dsl = open_collections L fs a r fnl dsl"
  unfolding open_collections_def
  by (simp only: cached_or_open_text [where fs = fs and po = po, OF assms] isfile_text [where fs = fs and po = po, OF assms])

lemma match_cf_text:
  assumes "fs po = Some (Text t)"
  shows "match_cf L (fs(po \<mapsto> Text t')) a r la lo fnl dsl = match_cf L fs a r la lo fnl dsl"
  unfolding match_cf_def open_collections_text [where fs = fs and po = po, OF assms] ..

lemma populate_text:
  assumes "fs po = Some (Text t)"
  shows "populate L (fs(po \<mapsto> Text t')) a la lo rs fnl dsl = populate L fs a la lo rs fnl dsl"
proof (induction rs arbitrary: fnl dsl)
  case Nil
  then show ?case by simp
next
  case (Cons r rs)
  show ?case
    unfolding populate.simps match_cf_text [where fs = fs and po = po, OF assms] Cons.IH ..
qed

lemma main_flag:
  assumes pre: "load_json (files w) (locations a) = Inr locs" "nsite a < int (length locs)"
      "py_index locs (nsite a) = Inr (Some url)"
    and rp: "read_pandora L (files w) (ifile_of url) = Some (Inr (rs, la, lo, ev0))"
    and rp': "read_pandora L ((files w)(ifile_of url \<mapsto> Text ls')) (ifile_of url)
              = Some (Inr (rs', la, lo, ev0))"
    and d: "list_all2 differ_only_in_flag rs rs'"
  shows "main L a (w\<lparr> files := (files w)(ifile_of url \<mapsto> Text ls') \<rparr>)
         = map_option (map_sum id (\<lambda>w1. w1\<lparr> files := (files w1)
               (ifile_of url \<mapsto> Text ls',
                ofile_of url \<mapsto>
                  (if isfile (files w) (ofile_of url) then the (files w (ofile_of url))
                   else Csv (with_flags_of (written_rows w1 (ofile_of url))
                               (select_rows (maxdate_of (today w)) rs')))) \<rparr>))
             (main L a w)"
proof -
  obtain ls where ls: "files w (ifile_of url) = Some (Text ls)"
    using read_pandora_text [OF rp] by auto
  let ?w' = "w\<lparr> files := (files w)(ifile_of url \<mapsto> Text ls') \<rparr>"
  have pre': "load_json (files ?w') (locations a) = Inr locs"
    using pre(1) by (simp add: load_json_text [where fs = "files w" and po = "ifile_of url", OF ls])
  have i: "isfile (files w) (ifile_of url)" "isfile (files ?w') (ifile_of url)"
    using ls by (simp_all add: isfile_def)
  have o: "isfile (files ?w') (ofile_of url) = isfile (files w) (ofile_of url)"
    by (simp add: isfile_text [where fs = "files w" and po = "ifile_of url", OF ls])
  show ?thesis
  proof (cases "isfile (files w) (ofile_of url)")
    case True
    have a: "main L a w = Some (Inr (w\<lparr> console := console w @ [Msg_out_exists (ofile_of url)] \<rparr>))"
      using main_skip [OF pre, of L] True i by simp
    have b: "main L a ?w' = Some (Inr (?w'\<lparr> console := console ?w' @ [Msg_out_exists (ofile_of url)] \<rparr>))"
      using main_skip [OF pre' pre(2,3), of L] True i o by simp
    obtain c where c: "files w (ofile_of url) = Some c"
      using True by (auto simp: isfile_def)
    have "(files w)(ifile_of url \<mapsto> Text ls', ofile_of url \<mapsto> c)
        = (files w)(ifile_of url \<mapsto> Text ls')"
      using c ifile_ne_ofile [of url url] by (auto simp: fun_eq_iff)
    then show ?thesis unfolding a b using True c by simp
  next
    case False
    let ?sel = "select_rows (maxdate_of (today w)) rs"
    let ?sel' = "select_rows (maxdate_of (today w)) rs'"
    have pf: "populate L (files ?w') a la lo ?sel' Map.empty Map.empty
        = (case populate L (files w) a la lo ?sel Map.empty Map.empty of
             Inl e \<Rightarrow> Inl e
           | Inr (ms, ev) \<Rightarrow> Inr (with_flags_of ms ?sel', ev))"
      using populate_flag [OF select_rows_flag [OF d]] by (simp add: populate_text [where fs = "files w" and po = "ifile_of url", OF ls])
    show ?thesis
    proof (cases "populate L (files w) a la lo ?sel Map.empty Map.empty")
      case (Inl e)
      have "main L a w = Some (Inl e)"
        by (rule main_raises [OF pre i(1) False rp Inl])
      moreover have "main L a ?w' = Some (Inl e)"
      proof (rule main_raises [OF pre' pre(2,3) i(2)])
        show "\<not> isfile (files ?w') (ofile_of url)" using False o by simp
        show "read_pandora L (files ?w') (ifile_of url) = Some (Inr (rs', la, lo, ev0))"
          using rp' by simp
        show "populate L (files ?w') a la lo (select_rows (maxdate_of (today ?w')) rs')
            Map.empty Map.empty = Inl e"
          using pf Inl by simp
      qed
      ultimately show ?thesis by simp
    next
      case (Inr t)
      obtain rows ev' where t: "t = (rows, ev')" by (cases t) auto
      have a: "main L a w = Some (Inr (w\<lparr>
           files := (files w)(ofile_of url \<mapsto> Csv rows),
           console := console w @ ev0 @ ev'
             @ [Io_to_csv (ofile_of url), Msg_written (ofile_of url)] \<rparr>))"
        using main_written [OF pre i(1) False rp] Inr t by simp
      have b: "main L a ?w' = Some (Inr (?w'\<lparr>
           files := (files ?w')(ofile_of url \<mapsto> Csv (with_flags_of rows ?sel')),
           console := console ?w' @ ev0 @ ev'
             @ [Io_to_csv (ofile_of url), Msg_written (ofile_of url)] \<rparr>))"
      proof (rule main_written [OF pre' pre(2,3) i(2)])
        show "\<not> isfile (files ?w') (ofile_of url)" using False o by simp
        show "read_pandora L (files ?w') (ifile_of url) = Some (Inr (rs', la, lo, ev0))"
          using rp' by simp
        show "populate L (files ?w') a la lo (select_rows (maxdate_of (today ?w')) rs')
            Map.empty Map.empty = Inr (with_flags_of rows ?sel', ev')"
          using pf Inr t by simp
      qed
      have ne: "ifile_of url \<noteq> ofile_of url" by (rule ifile_ne_ofile)
      have "(files w)(ofile_of url \<mapsto> Csv rows, ifile_of url \<mapsto> Text ls',
                     ofile_of url \<mapsto> Csv (with_flags_of rows ?sel'))
          = (files w)(ifile_of url \<mapsto> Text ls', ofile_of url \<mapsto> Csv (with_flags_of rows ?sel'))"
        using ne by (auto simp: fun_eq_iff)
      then show ?thesis
        unfolding a b using False by (simp add: written_rows_def)
    qed
  qed
qed

lemma example_flagged_rows:
  "list_all2 differ_only_in_flag [example_row, example_row_old, example_row_high]
     [example_row\<lparr> pandora_no2_qval := 0 \<rparr>, example_row_old, example_row_high]"
  by (simp add: differ_only_in_flag_def)

lemma example_parse_rows_flagged:
  "parse_rows example_lib example_rows_flagged
   = Inr [example_row\<lparr> pandora_no2_qval := 0 \<rparr>, example_row_old, example_row_high]"
  by (simp add: example_rows_flagged_def parse_row_def obs_fields_ok obs_fields_nth example_lib_def
      example_row_def example_row_old_def example_row_high_def)

lemma read_csv_example_flagged: "read_csv example_lib example_obs_flagged = Inr example_rows_flagged"
  by (simp add: example_lib_def example_obs_flagged_def)

lemma scan_example_flagged:
  "scan_latlon example_lib example_obs_flagged None None []
   = Some (Inr (38.9, - 77, [Msg_latitude 38.9, Msg_longitude (- 77)]))"
proof -
  have "scan_latlon example_lib example_obs_flagged None None []
      = scan_latlon example_lib (tl example_obs_flagged) (Some 38.9) None [Msg_latitude 38.9]"
    by (subst scan_latlon.simps) (simp add: example_obs_flagged_def scan_line_lat)
  also have "\<dots> = scan_latlon example_lib (tl (tl example_obs_flagged)) (Some 38.9) (Some (- 77))
      [Msg_latitude 38.9, Msg_longitude (- 77)]"
    by (subst scan_latlon.simps) (simp add: example_obs_flagged_def scan_line_lon)
  also have "\<dots> = Some (Inr (38.9, - 77, [Msg_latitude 38.9, Msg_longitude (- 77)]))"
    by (subst scan_latlon.simps) simp
  finally show ?thesis .
qed

lemma example_read_pandora_flagged:
  "read_pandora example_lib ((files example_world)(ifile_of example_url \<mapsto> Text example_obs_flagged))
     (ifile_of example_url)
   = Some (Inr ([example_row\<lparr> pandora_no2_qval := 0 \<rparr>, example_row_old, example_row_high],
                38.9, - 77,
                [Msg_reading ''obs/P1.txt'', Io_read_obs ''obs/P1.txt'',
                 Msg_latitude 38.9, Msg_longitude (- 77)]))"
proof -
  have "read_text ((files example_world)(ifile_of example_url \<mapsto> Text example_obs_flagged))
      (ifile_of example_url) = Inr example_obs_flagged"
    by (simp add: read_text_def)
  then show ?thesis
    by (simp add: read_pandora_def read_csv_example_flagged example_parse_rows_flagged
        scan_example_flagged example_names)
qed

lemma example_read_pandora_world:
  "read_pandora example_lib (files example_world) (ifile_of example_url)
      = Some (Inr ([example_row, example_row_old, example_row_high], 38.9, - 77,
                [Msg_reading ''obs/P1.txt'', Io_read_obs ''obs/P1.txt'',
                 Msg_latitude 38.9, Msg_longitude (- 77)]))"
  by (simp add: example_names example_read_pandora example_world_def)

lemma example_select_rows_flagged:
  "select_rows (maxdate_of (19000 * day + 5 * hour))
     [example_row\<lparr> pandora_no2_qval := 0 \<rparr>, example_row_old, example_row_high]
   = [example_row\<lparr> pandora_no2_qval := 0 \<rparr>]"
  by (simp add: select_rows_def maxdate_of_def MINDATE_def day_def hour_def example_row_def
      example_row_old_def example_row_high_def)

section \<open>The partial column\<close>

text \<open>
  C1, as amended. Take a profile of four arrays with one entry per layer, mid-layer
  heights in ascending order and a target height \<open>H\<close> that is not negative, and let
  \<open>j\<close> be the first layer whose top (the midpoint of \<open>z[j]\<close> and \<open>z[j+1]\<close>) is above
  \<open>H\<close>. Then the loop returns the closed form: the whole amount
  \<open>x[i]*\<Delta>p[i]*(1-q[i])*K\<close> of every layer whose top is at or below \<open>H\<close>, and of layer
  \<open>j\<close> the fraction \<open>(H - bottom)/(top - bottom)\<close>. It stops after layer \<open>j\<close>, whatever
  lies above (\<open>iL = j + 1\<close>), and has printed nothing. When moreover no mixing ratio and
  no pressure thickness is negative and no specific humidity is above 1, the running
  sum never decreases from one pass of the loop to the next.
\<close>

theorem partial_column_closed_form:
  assumes "per_layer p" and "sorted (zl p)" and "0 \<le> H" and "spec_first_above (zl p) H = Some j"
  shows "partial_column p H
           = Inr \<lparr> inML = False, iL = Suc j, l1col = spec_closed_form p H j, out = [] \<rparr>
         \<and> (nonneg_inputs p \<longrightarrow>
              (\<forall>k. \<exists>s s'. loop_steps k p H loop_init = Inr s
                 \<and> loop_steps (Suc k) p H loop_init = Inr s' \<and> l1col s \<le> l1col s'))"
proof -
  have "partial_column p H
           = Inr \<lparr> inML = False, iL = Suc j, l1col = spec_closed_form p H j, out = [] \<rparr>"
    using assms by (rule partial_column_sorted)
  moreover have "\<exists>s s'. loop_steps k p H loop_init = Inr s
                 \<and> loop_steps (Suc k) p H loop_init = Inr s' \<and> l1col s \<le> l1col s'"
    if "nonneg_inputs p" for k
    using assms that by (intro running_sum_mono) auto
  ultimately show ?thesis by blast
qed

text \<open>C1, the theorem at the example profile and \<open>H = 120\<close>: layer 1 is the fractional one.\<close>

theorem partial_column_closed_form_witness:
  "per_layer example_profile \<and> sorted (zl example_profile) \<and> (0::real) \<le> 120
   \<and> spec_first_above (zl example_profile) 120 = Some 1
   \<and> nonneg_inputs example_profile
   \<and> partial_column example_profile 120
       = Inr \<lparr> inML = False, iL = 2, l1col = spec_closed_form example_profile 120 1, out = [] \<rparr>
   \<and> (\<exists>s s'. loop_steps 1 example_profile 120 loop_init = Inr s
         \<and> loop_steps (Suc 1) example_profile 120 loop_init = Inr s' \<and> l1col s \<le> l1col s')"
proof -
  have a: "per_layer example_profile" by (simp add: per_layer_def example_profile_def)
  have b: "sorted (zl example_profile)" by (simp add: example_profile_def)
  have c: "(0::real) \<le> 120" by simp
  have d: "nonneg_inputs example_profile" by (simp add: nonneg_inputs_def example_profile_def)
  note t = partial_column_closed_form [OF a b c example_first_above]
  have e: "partial_column example_profile 120
       = Inr \<lparr> inML = False, iL = 2, l1col = spec_closed_form example_profile 120 1, out = [] \<rparr>"
    using t by (simp add: numeral_2_eq_2)
  have f: "\<exists>s s'. loop_steps 1 example_profile 120 loop_init = Inr s
         \<and> loop_steps (Suc 1) example_profile 120 loop_init = Inr s' \<and> l1col s \<le> l1col s'"
    using t d by blast
  show ?thesis using a b c d e f example_first_above by blast
qed

text \<open>
  C1 as stated fails: with every input non-negative and a specific humidity above 1,
  the factor \<open>1 - q\<close> is negative and the first pass of the loop lowers the running
  sum from 0 to \<open>- VV_TO_MOLEC\<close>.
\<close>

theorem running_sum_decreases_counterexample:
  "list_all (\<lambda>x. 0 \<le> x) (delp wet_profile) \<and> list_all (\<lambda>x. 0 \<le> x) (zl wet_profile)
   \<and> list_all (\<lambda>x. 0 \<le> x) (q wet_profile) \<and> list_all (\<lambda>x. 0 \<le> x) (no2 wet_profile)
   \<and> (0::real) \<le> 120
   \<and> loop_steps 0 wet_profile 120 loop_init = Inr loop_init
   \<and> loop_steps 1 wet_profile 120 loop_init
       = Inr \<lparr> inML = True, iL = 1, l1col = - VV_TO_MOLEC, out = [] \<rparr>
   \<and> - VV_TO_MOLEC < l1col loop_init"
proof -
  have "loop_body wet_profile 120 loop_init
        = Inr \<lparr> inML = True, iL = 1, l1col = - VV_TO_MOLEC, out = [] \<rparr>"
    by (simp add: loop_body_def layer_frac_def loop_init_def wet_profile_def)
  then have "loop_steps (Suc 0) wet_profile 120 loop_init
        = Inr \<lparr> inML = True, iL = 1, l1col = - VV_TO_MOLEC, out = [] \<rparr>"
    by (simp add: loop_steps.simps loop_init_def)
  then show ?thesis
    using VV_TO_MOLEC_pos by (simp add: wet_profile_def loop_init_def)
qed

text \<open>
  C2, as amended. Let \<open>H\<close> be exactly the top of layer \<open>i\<close>, with the tops of the layers
  below \<open>i\<close> at or below \<open>H\<close> and the top of layer \<open>i + 1\<close> above \<open>H\<close>. Then layer \<open>i\<close>
  gets \<open>frac = 1\<close> and the loop goes on to layer \<open>i + 1\<close>, whose bottom is \<open>H\<close>: that
  layer gets \<open>frac = 0\<close>, adds nothing, and ends the loop (\<open>iL = i + 2\<close>). The column is
  the sum of the whole layers 0 to \<open>i\<close>.
\<close>

theorem boundary_height_next_layer:
  assumes "per_layer p" and "i + 2 < length (zl p)" and "H = spec_layer_top (zl p) i"
    and "\<forall>k<i. spec_layer_top (zl p) k \<le> H" and "H < spec_layer_top (zl p) (i + 1)"
  shows "layer_frac (zl p) H i = Inr 1 \<and> layer_frac (zl p) H (i + 1) = Inr 0
         \<and> partial_column p H
             = Inr \<lparr> inML = False, iL = i + 2, l1col = sum (spec_layer_amount p) {0..i},
                     out = [] \<rparr>"
proof -
  have f1: "layer_frac (zl p) H i = Inr 1"
    using assms(2,3) by (intro layer_frac_full) auto
  have ne: "spec_layer_top (zl p) (i + 1) \<noteq> spec_layer_bottom (zl p) (i + 1)"
    using assms(3,5) by (simp add: layer_bottom_Suc)
  have f0: "layer_frac (zl p) H (i + 1) = Inr 0"
    using layer_frac_part [of "i + 1" "zl p" H] assms(2,3,5) ne
    by (simp add: layer_bottom_Suc)
  have fa: "spec_first_above (zl p) H = Some (Suc i)"
  proof -
    have "find (\<lambda>j. H < spec_layer_top (zl p) j) [0..<length (zl p) - 1] = Some (Suc i)"
      unfolding find_Some_iff
    proof (intro exI [of _ "Suc i"] conjI allI impI)
      show "Suc i < length [0..<length (zl p) - 1]" using assms(2) by simp
      show "H < spec_layer_top (zl p) ([0..<length (zl p) - 1] ! Suc i)"
        using assms(2,5) by simp
      show "Suc i = [0..<length (zl p) - 1] ! Suc i" using assms(2) by simp
      fix k assume "k < Suc i"
      then have "spec_layer_top (zl p) k \<le> H"
        using assms(3,4) by (cases "k = i") auto
      moreover have "[0..<length (zl p) - 1] ! k = k"
        using \<open>k < Suc i\<close> assms(2) by simp
      ultimately show "\<not> H < spec_layer_top (zl p) ([0..<length (zl p) - 1] ! k)"
        by simp
    qed
    then show ?thesis by (simp add: spec_first_above_def)
  qed
  have "partial_column p H
        = Inr \<lparr> inML = False, iL = Suc (Suc i),
                l1col = sum (spec_layer_amount p) {0..<Suc i} + spec_layer_amount p (Suc i)
                  * ((H - spec_layer_bottom (zl p) (Suc i))
                     / (spec_layer_top (zl p) (Suc i) - spec_layer_bottom (zl p) (Suc i))),
                out = [] \<rparr>"
    using assms(1) fa by (intro partial_column_value) auto
  moreover have "H - spec_layer_bottom (zl p) (Suc i) = 0"
    using assms(3) by (simp add: layer_bottom_Suc)
  moreover have "{0..<Suc i} = {0..i}" by auto
  ultimately have "partial_column p H
        = Inr \<lparr> inML = False, iL = i + 2, l1col = sum (spec_layer_amount p) {0..i},
                out = [] \<rparr>"
    by simp
  then show ?thesis using f1 f0 by simp
qed

text \<open>C2, the theorem at the example profile and \<open>H = 100\<close>, the top of layer 0.\<close>

theorem boundary_height_next_layer_witness:
  "per_layer example_profile \<and> (0::nat) + 2 < length (zl example_profile)
   \<and> (100::real) = spec_layer_top (zl example_profile) 0
   \<and> (100::real) < spec_layer_top (zl example_profile) (0 + 1)
   \<and> layer_frac (zl example_profile) 100 0 = Inr 1
   \<and> layer_frac (zl example_profile) 100 (0 + 1) = Inr 0
   \<and> partial_column example_profile 100
       = Inr \<lparr> inML = False, iL = 0 + 2, l1col = sum (spec_layer_amount example_profile) {0..0},
               out = [] \<rparr>"
proof -
  have a: "per_layer example_profile" by (simp add: per_layer_def example_profile_def)
  have b: "(0::nat) + 2 < length (zl example_profile)" by (simp add: example_profile_def)
  have c: "(100::real) = spec_layer_top (zl example_profile) 0"
    by (simp add: spec_layer_top_def example_profile_def)
  have d: "\<forall>k<(0::nat). spec_layer_top (zl example_profile) k \<le> 100" by simp
  have e: "(100::real) < spec_layer_top (zl example_profile) (0 + 1)"
    by (simp add: spec_layer_top_def example_profile_def)
  show ?thesis
    using boundary_height_next_layer [OF a b c d e] a b c e by blast
qed

text \<open>
  C2 as stated fails: with \<open>H = 100\<close>, the top of layer 0 of the example profile, the
  loop does not stop at layer 0. It reads layer 1 as well and stops there (\<open>iL = 2\<close>).
\<close>

theorem boundary_height_counterexample:
  "(zl example_profile ! 0 + zl example_profile ! 1) / 2 = 100
   \<and> loop_steps 1 example_profile 100 loop_init
       = Inr \<lparr> inML = True, iL = 1, l1col = spec_layer_amount example_profile 0, out = [] \<rparr>
   \<and> partial_column example_profile 100
       = Inr \<lparr> inML = False, iL = 2, l1col = spec_layer_amount example_profile 0, out = [] \<rparr>"
proof -
  have b0: "loop_body example_profile 100 loop_init
        = Inr \<lparr> inML = True, iL = 1, l1col = spec_layer_amount example_profile 0, out = [] \<rparr>"
    by (simp add: loop_body_def layer_frac_def loop_init_def example_profile_def
        spec_layer_amount_def)
  have b1: "loop_body example_profile 100
          \<lparr> inML = True, iL = 1, l1col = spec_layer_amount example_profile 0, out = [] \<rparr>
        = Inr \<lparr> inML = False, iL = 2, l1col = spec_layer_amount example_profile 0, out = [] \<rparr>"
    by (simp add: loop_body_def layer_frac_def example_profile_def)
  have s1: "loop_steps (Suc 0) example_profile 100 loop_init
        = Inr \<lparr> inML = True, iL = 1, l1col = spec_layer_amount example_profile 0, out = [] \<rparr>"
    using b0 by (simp add: loop_steps.simps loop_init_def)
  have "partial_column example_profile 100
        = while_inML example_profile 100
            \<lparr> inML = True, iL = 1, l1col = spec_layer_amount example_profile 0, out = [] \<rparr>"
    unfolding partial_column_def using b0 by (intro while_inML_step) (simp_all add: loop_init_def)
  also have "\<dots> = while_inML example_profile 100
            \<lparr> inML = False, iL = 2, l1col = spec_layer_amount example_profile 0, out = [] \<rparr>"
    using b1 by (intro while_inML_step) simp_all
  finally have w: "partial_column example_profile 100
        = Inr \<lparr> inML = False, iL = 2, l1col = spec_layer_amount example_profile 0, out = [] \<rparr>"
    by (simp add: while_inML_stopped)
  show ?thesis using s1 w by (simp add: example_profile_def)
qed

text \<open>
  C3: when every layer top is at or below the target height, the loop reads
  \<^verbatim>\<open>zl[iL+1]\<close> past the end of the array. The run ends with \<open>IndexError\<close>: no warning
  is printed and no partial sum is returned.
\<close>

theorem exhausted_profile_raises:
  assumes "per_layer p" and "\<forall>i. i + 1 < length (zl p) \<longrightarrow> spec_layer_top (zl p) i \<le> H"
  shows "partial_column p H = Inl IndexError"
proof (cases "length (zl p) = 0")
  case True
  then have "loop_body p H loop_init = Inl IndexError"
    by (simp add: loop_body_def layer_frac_def loop_init_def)
  then show ?thesis
    unfolding partial_column_def by (intro while_inML_raise) (simp_all add: loop_init_def)
next
  case False
  define n where "n = length (zl p) - 1"
  have n: "n < length (zl p)" "length (zl p) \<le> n + 1" using False by (simp_all add: n_def)
  have st: "loop_steps n p H loop_init
      = Inr \<lparr> inML = True, iL = n, l1col = sum (spec_layer_amount p) {0..<n}, out = [] \<rparr>"
    unfolding loop_init_def
    using loop_steps_full [of p 0 n H 0 "[]"] assms n(1) by simp
  have "loop_body p H \<lparr> inML = True, iL = n, l1col = sum (spec_layer_amount p) {0..<n}, out = [] \<rparr>
      = Inl IndexError"
    using n(2) by (simp add: loop_body_def layer_frac_def)
  then have "while_inML p H
        \<lparr> inML = True, iL = n, l1col = sum (spec_layer_amount p) {0..<n}, out = [] \<rparr>
      = Inl IndexError"
    by (intro while_inML_raise) simp_all
  then show ?thesis
    unfolding partial_column_def using while_inML_steps [OF st] by simp
qed

text \<open>
  C3, the theorem at the profile of two layers and \<open>H = 1000\<close>, above its only top.
\<close>

theorem exhausted_profile_raises_witness:
  "per_layer short_profile \<and> spec_layer_top (zl short_profile) 0 \<le> 1000
   \<and> partial_column short_profile 1000 = Inl IndexError"
proof -
  have a: "per_layer short_profile" by (simp add: per_layer_def short_profile_def)
  have t: "spec_layer_top (zl short_profile) 0 \<le> 1000"
    by (simp add: spec_layer_top_def short_profile_def)
  have b: "\<forall>i. i + 1 < length (zl short_profile) \<longrightarrow> spec_layer_top (zl short_profile) i \<le> 1000"
    using t by (simp add: short_profile_def)
  show ?thesis using exhausted_profile_raises [OF a b] a t by blast
qed

section \<open>The unit conversions\<close>

text \<open>
  C4, as amended. With a pressure and a temperature that are not 0 and a specific
  humidity that is not 1, the forward conversion of line 176 followed by the inverse of
  line 203 gives the mixing ratio in ppb divided by \<open>1 - q[0]\<close>: the inverse also dries
  out. It gives the mixing ratio itself exactly when \<open>q[0] = 0\<close> or the mixing ratio is 0.
\<close>

theorem round_trip_dries_out:
  assumes "prs \<noteq> 0" and "temp \<noteq> 0" and "q0 \<noteq> 1"
  shows "sfcmr_pandora_of (sfcconc_of x0 prs temp) prs temp q0 = sfcmr_of x0 / (1 - q0)
         \<and> (sfcmr_pandora_of (sfcconc_of x0 prs temp) prs temp q0 = sfcmr_of x0
              \<longleftrightarrow> q0 = 0 \<or> x0 = 0)"
proof -
  have rt: "sfcmr_pandora_of (sfcconc_of x0 prs temp) prs temp q0 = sfcmr_of x0 / (1 - q0)"
    using assms by (simp add: sfcmr_pandora_of_def sfcconc_of_def sfcmr_of_def)
  have "sfcmr_of x0 / (1 - q0) = sfcmr_of x0 \<longleftrightarrow> q0 = 0 \<or> x0 = 0"
    using assms(3) by (auto simp: sfcmr_of_def field_simps)
  then show ?thesis using rt by simp
qed

text \<open>C4, the theorem at 20 ppb, 101325 Pa, 288 K and a specific humidity of 0.01.\<close>

theorem round_trip_dries_out_witness:
  "(101325::real) \<noteq> 0 \<and> (288::real) \<noteq> 0 \<and> (1 / 100::real) \<noteq> 1
   \<and> sfcmr_pandora_of (sfcconc_of (2 / 10 ^ 8) 101325 288) 101325 288 (1 / 100)
       = sfcmr_of (2 / 10 ^ 8) / (1 - 1 / 100)"
proof -
  have a: "(101325::real) \<noteq> 0" by simp
  have b: "(288::real) \<noteq> 0" by simp
  have c: "(1 / 100::real) \<noteq> 1" by simp
  show ?thesis using round_trip_dries_out [OF a b c, of "2 / 10 ^ 8"] by simp
qed

text \<open>
  C4 as stated fails: from 20 ppb at 101325 Pa, 288 K and a specific humidity of 0.01,
  the round trip gives 2000/99 ppb, one per cent above 20.
\<close>

theorem round_trip_counterexample:
  "sfcmr_of (2 / 10 ^ 8) = 20
   \<and> sfcmr_pandora_of (sfcconc_of (2 / 10 ^ 8) 101325 288) 101325 288 (1 / 100) = 2000 / 99"
  by (simp add: sfcmr_pandora_of_def sfcconc_of_def sfcmr_of_def)

section \<open>A missing GEOS-CF file\<close>

text \<open>
  C5: the claim holds for the chm file only, the one file that line 138 tests with
  \<^verbatim>\<open>os.path.isfile\<close> (lemma \<open>match_cf_no_chm\<close>: every value stays \<^verbatim>\<open>np.nan\<close> and the
  run goes on). The met and pbl files are opened untested. When the first record that
  passes the filter finds its chm file and not its met file, \<^verbatim>\<open>xr.open_dataset\<close>
  raises \<open>FileNotFoundError\<close>; nothing catches it, so \<^verbatim>\<open>_match_cf\<close> and the whole
  run end with it and no table is written.
\<close>

theorem missing_met_file_aborts_run:
  assumes "load_json (files w) (locations a) = Inr locs" and "nsite a < int (length locs)"
    and "py_index locs (nsite a) = Inr (Some url)"
    and "isfile (files w) (ifile_of url)" and "\<not> isfile (files w) (ofile_of url)"
    and "read_pandora L (files w) (ifile_of url) = Some (Inr (pand, la, lo, ev))"
    and "select_rows (maxdate_of (today w)) pand = r # rs"
    and "files w (replace_all ''<col>'' ''chm'' (strftime L (round_H (date r)) (cf_template a)))
         = Some (NetCDF dsc)"
    and "files w (replace_all ''<col>'' ''met'' (strftime L (round_H (date r)) (cf_template a)))
         = None"
  shows "match_cf L (files w) a r la lo Map.empty Map.empty
         = Inl (FileNotFoundError
                 (replace_all ''<col>'' ''met'' (strftime L (round_H (date r)) (cf_template a))))
         \<and> main L a w
           = Some (Inl (FileNotFoundError
                 (replace_all ''<col>'' ''met'' (strftime L (round_H (date r)) (cf_template a)))))"
proof -
  let ?pm = "replace_all ''<col>'' ''met'' (strftime L (round_H (date r)) (cf_template a))"
  have c: "spec_resolve (files w) Map.empty Map.empty ''chm''
             (replace_all ''<col>'' ''chm'' (strftime L (round_H (date r)) (cf_template a)))
           = Some dsc"
    using assms(8) by (simp add: spec_resolve_def)
  have oc: "open_collections L (files w) a r Map.empty Map.empty = Inl (FileNotFoundError ?pm)"
    by (rule open_collections_no_met [OF c _ assms(9)]) simp
  then have mc: "match_cf L (files w) a r la lo Map.empty Map.empty = Inl (FileNotFoundError ?pm)"
    by (simp add: match_cf_def)
  then have "populate L (files w) a la lo (select_rows (maxdate_of (today w)) pand)
      Map.empty Map.empty = Inl (FileNotFoundError ?pm)"
    unfolding assms(7) by simp
  then have "main L a w = Some (Inl (FileNotFoundError ?pm))"
    by (rule main_raises [OF assms(1-6)])
  then show ?thesis using mc by simp
qed

text \<open>C5, the theorem at the example run without the file \<^verbatim>\<open>cf_met.nc\<close>.\<close>

theorem missing_met_file_aborts_run_witness:
  "example_files_no_met ''cf_chm.nc'' = Some (NetCDF example_chm)
   \<and> example_files_no_met ''cf_met.nc'' = None
   \<and> match_cf example_lib example_files_no_met example_args example_row 38.9 (- 77)
        Map.empty Map.empty
       = Inl (FileNotFoundError ''cf_met.nc'')
   \<and> main example_lib example_args (example_world\<lparr> files := example_files_no_met \<rparr>)
       = Some (Inl (FileNotFoundError ''cf_met.nc''))"
proof -
  note t = missing_met_file_aborts_run [OF example_prelude_no_met(1) example_prelude(2,3)
      example_prelude_no_met(2-7)]
  have f: "example_files_no_met ''cf_chm.nc'' = Some (NetCDF example_chm)"
    "example_files_no_met ''cf_met.nc'' = None"
    by (simp_all add: example_files_no_met_def)
  show ?thesis using t f unfolding example_paths by simp
qed

section \<open>A file without its coordinates\<close>

text \<open>
  C6: when no line of the file carries the label of the latitude, or none carries the
  label of the longitude, the loop of lines 229 to 236 never returns the coordinates,
  and neither does \<^verbatim>\<open>_read_pandora\<close>. At the end of the file \<^verbatim>\<open>readline\<close> gives
  empty bytes for ever and the loop has no other exit: it runs without end, unless
  a labelled line that cannot be read raised before. No error for missing metadata is
  raised.
\<close>

theorem missing_label_never_returns:
  assumes "list_all (\<lambda>l. \<not> has_label ''Location latitude'' l) f
           \<or> list_all (\<lambda>l. \<not> has_label ''Location longitude'' l) f"
    and "fs ifile = Some (Text f)"
  shows "(\<forall>y. scan_latlon L f None None [] \<noteq> Some (Inr y))
         \<and> (\<forall>y. read_pandora L fs ifile \<noteq> Some (Inr y))"
proof -
  have s: "\<forall>y. scan_latlon L f None None [] \<noteq> Some (Inr y)"
    using assms(1) scan_latlon_no_lat [of f L None "[]"] scan_latlon_no_lon [of f L None "[]"]
    by blast
  have "read_text fs ifile = Inr f" using assms(2) by (simp add: read_text_def)
  then have "\<forall>y. read_pandora L fs ifile \<noteq> Some (Inr y)"
    using s by (auto simp: read_pandora_def split: sum.splits option.splits)
  then show ?thesis using s by simp
qed

text \<open>
  C6, the theorem at the example file without its line of the longitude: the loop, the
  reader and the run never return.
\<close>

theorem missing_label_never_returns_witness:
  "list_all (\<lambda>l. \<not> has_label ''Location longitude'' l) example_obs_no_lon
   \<and> example_files_no_lon ''obs/P1.txt'' = Some (Text example_obs_no_lon)
   \<and> (\<forall>y. read_pandora example_lib example_files_no_lon ''obs/P1.txt'' \<noteq> Some (Inr y))
   \<and> scan_latlon example_lib example_obs_no_lon None None [] = None
   \<and> read_pandora example_lib example_files_no_lon ''obs/P1.txt'' = None
   \<and> main example_lib example_args (example_world\<lparr> files := example_files_no_lon \<rparr>) = None"
proof -
  have a: "list_all (\<lambda>l. \<not> has_label ''Location latitude'' l) example_obs_no_lon
           \<or> list_all (\<lambda>l. \<not> has_label ''Location longitude'' l) example_obs_no_lon"
    using example_no_lon by simp
  have b: "example_files_no_lon ''obs/P1.txt'' = Some (Text example_obs_no_lon)"
    by (simp add: example_files_no_lon_def)
  show ?thesis
    using missing_label_never_returns [where f = example_obs_no_lon
        and fs = example_files_no_lon and ifile = "''obs/P1.txt''" and L = example_lib, OF a b]
      example_no_lon b
      scan_example_no_lon example_read_pandora_no_lon example_main_no_lon
    by simp
qed

section \<open>The rows of the written table\<close>

text \<open>
  C7: when a run reads the observations and returns, the table it has written holds,
  in the order of the file, exactly the records whose date is from \<open>MINDATE\<close>
  (2020-01-01) to \<open>maxdate\<close>, both included, and whose layer height is above 0 and below
  15 (km): a record outside appears in no row and every record inside is a row. Here
  \<open>maxdate\<close> is midnight of the day three days before the clock's: a whole number of
  days, at most three days back and less than four.
\<close>

theorem filtered_rows_written:
  assumes "load_json (files w) (locations a) = Inr locs" and "nsite a < int (length locs)"
    and "py_index locs (nsite a) = Inr (Some url)"
    and "isfile (files w) (ifile_of url)" and "\<not> isfile (files w) (ofile_of url)"
    and "read_pandora L (files w) (ifile_of url) = Some (Inr (pand, la, lo, ev))"
    and "main L a w = Some (Inr w1)"
  shows "\<exists>rows. files w1 (ofile_of url) = Some (Csv rows)
           \<and> map row.truncate rows = select_rows (maxdate_of (today w)) pand
           \<and> (\<forall>r. r \<in> set (map row.truncate rows) \<longleftrightarrow>
                  r \<in> set pand \<and> MINDATE \<le> date r \<and> date r \<le> maxdate_of (today w)
                  \<and> 0 < pandora_no2_l1hgt r \<and> pandora_no2_l1hgt r < 15)
           \<and> maxdate_of (today w) mod day = 0
           \<and> maxdate_of (today w) \<le> today w - 3 * day
           \<and> today w - 3 * day < maxdate_of (today w) + day"
proof -
  from main_returns_cases [OF assms(1-3,7)] assms(4,5,6)
  obtain rows ev' where
    po: "populate L (files w) a la lo (select_rows (maxdate_of (today w)) pand)
           Map.empty Map.empty = Inr (rows, ev')"
    and w1: "w1 = w\<lparr> files := (files w)(ofile_of url \<mapsto> Csv rows),
           console := console w @ ev @ ev'
             @ [Io_to_csv (ofile_of url), Msg_written (ofile_of url)] \<rparr>"
    by auto
  have f: "files w1 (ofile_of url) = Some (Csv rows)" using w1 by simp
  have m: "map row.truncate rows = select_rows (maxdate_of (today w)) pand"
    using populate_rows [OF po] .
  have i: "\<forall>r. r \<in> set (map row.truncate rows) \<longleftrightarrow>
                  r \<in> set pand \<and> MINDATE \<le> date r \<and> date r \<le> maxdate_of (today w)
                  \<and> 0 < pandora_no2_l1hgt r \<and> pandora_no2_l1hgt r < 15"
    unfolding m by (simp add: select_rows_iff)
  note md = maxdate_of_midnight [of "today w"]
  show ?thesis
  proof (intro exI [of _ rows] conjI)
    show "files w1 (ofile_of url) = Some (Csv rows)" by (rule f)
    show "map row.truncate rows = select_rows (maxdate_of (today w)) pand" by (rule m)
    show "\<forall>r. r \<in> set (map row.truncate rows) \<longleftrightarrow>
                  r \<in> set pand \<and> MINDATE \<le> date r \<and> date r \<le> maxdate_of (today w)
                  \<and> 0 < pandora_no2_l1hgt r \<and> pandora_no2_l1hgt r < 15" by (rule i)
    show "maxdate_of (today w) mod day = 0" using md by simp
    show "maxdate_of (today w) \<le> today w - 3 * day" using md by simp
    show "today w - 3 * day < maxdate_of (today w) + day" using md by simp
  qed
qed

text \<open>
  C7, the theorem at the example run: of the three records of the file, the one of 2019
  and the one with a layer height of 20 km are not written.
\<close>

theorem filtered_rows_written_witness:
  "load_json (files example_world) (locations example_args) = Inr [Some example_url]
   \<and> nsite example_args < int (length [Some example_url])
   \<and> py_index [Some example_url] (nsite example_args) = Inr (Some example_url)
   \<and> isfile (files example_world) (ifile_of example_url)
   \<and> \<not> isfile (files example_world) (ofile_of example_url)
   \<and> main example_lib example_args example_world = Some (Inr example_written)
   \<and> (\<exists>rows. files example_written (ofile_of example_url) = Some (Csv rows)
         \<and> map row.truncate rows = [example_row])"
proof -
  have rp: "read_pandora example_lib (files example_world) (ifile_of example_url)
      = Some (Inr ([example_row, example_row_old, example_row_high], 38.9, - 77,
                [Msg_reading ''obs/P1.txt'', Io_read_obs ''obs/P1.txt'',
                 Msg_latitude 38.9, Msg_longitude (- 77)]))"
    by (simp add: example_names example_read_pandora example_world_def)
  have t: "today example_world = 19000 * day + 5 * hour" by (simp add: example_world_def)
  obtain rows where "files example_written (ofile_of example_url) = Some (Csv rows)"
      and "map row.truncate rows = [example_row]"
    using filtered_rows_written [OF example_prelude rp example_main]
    unfolding t example_select_rows by auto
  then have "\<exists>rows. files example_written (ofile_of example_url) = Some (Csv rows)
         \<and> map row.truncate rows = [example_row]"
    by (intro exI [of _ rows]) simp
  then show ?thesis using example_prelude example_main by simp
qed

section \<open>Running twice\<close>

text \<open>
  C8: for a site whose entry of the list is read. When the observation file is absent
  or the output file exists, the run returns with the files as they were, having only
  printed the message that says which of the two it is: nothing is read, matched or
  written. And when a run has returned, a second run on the files it left (at whatever
  time, the list not being the written file itself) is such a run.
\<close>

theorem rerun_is_noop:
  assumes "load_json (files w) (locations a) = Inr locs" and "nsite a < int (length locs)"
    and "py_index locs (nsite a) = Inr (Some url)"
  shows "(\<not> isfile (files w) (ifile_of url) \<or> isfile (files w) (ofile_of url) \<longrightarrow>
            main L a w = Some (Inr (w\<lparr> console := console w @
              [if isfile (files w) (ifile_of url) then Msg_out_exists (ofile_of url)
               else Msg_obs_missing (ifile_of url)] \<rparr>)))
         \<and> (\<forall>w1 t. main L a w = Some (Inr w1) \<and> locations a \<noteq> ofile_of url \<longrightarrow>
              main L a (w1\<lparr> today := t \<rparr>) = Some (Inr (w1\<lparr> today := t,
                console := console w1 @
                  [if isfile (files w1) (ifile_of url) then Msg_out_exists (ofile_of url)
                   else Msg_obs_missing (ifile_of url)] \<rparr>)))"
proof (intro conjI impI allI)
  assume "\<not> isfile (files w) (ifile_of url) \<or> isfile (files w) (ofile_of url)"
  then show "main L a w = Some (Inr (w\<lparr> console := console w @
              [if isfile (files w) (ifile_of url) then Msg_out_exists (ofile_of url)
               else Msg_obs_missing (ifile_of url)] \<rparr>))"
    by (rule main_skip [OF assms])
next
  fix w1 t
  assume a: "main L a w = Some (Inr w1) \<and> locations a \<noteq> ofile_of url"
  let ?w2 = "w1\<lparr> today := t \<rparr>"
  from main_returns_cases [OF assms, of L w1] a
  consider (skipped) "\<not> isfile (files w) (ifile_of url) \<or> isfile (files w) (ofile_of url)"
      "files w1 = files w"
    | (written) rows where "isfile (files w) (ifile_of url)"
      "files w1 = (files w)(ofile_of url \<mapsto> Csv rows)"
    by auto
  then have "load_json (files ?w2) (locations a) = Inr locs
      \<and> (\<not> isfile (files ?w2) (ifile_of url) \<or> isfile (files ?w2) (ofile_of url))"
  proof cases
    case skipped
    then show ?thesis using assms(1) by simp
  next
    case written
    have "load_json (files ?w2) (locations a) = load_json (files w) (locations a)"
      using a written(2) by (simp add: load_json_def)
    moreover have "isfile (files ?w2) (ofile_of url)"
      using written(2) by (simp add: isfile_def)
    ultimately show ?thesis using assms(1) by simp
  qed
  then have "main L a ?w2 = Some (Inr (?w2\<lparr> console := console ?w2 @
              [if isfile (files ?w2) (ifile_of url) then Msg_out_exists (ofile_of url)
               else Msg_obs_missing (ifile_of url)] \<rparr>))"
    using main_skip [of ?w2 a locs url L] assms(2,3) by blast
  then show "main L a (w1\<lparr> today := t \<rparr>) = Some (Inr (w1\<lparr> today := t,
                console := console w1 @
                  [if isfile (files w1) (ifile_of url) then Msg_out_exists (ofile_of url)
                   else Msg_obs_missing (ifile_of url)] \<rparr>))"
    by simp
qed

text \<open>
  C8, the theorem at the example run, which writes the table, and at the files it
  leaves: the second run only prints that the table exists.
\<close>

theorem rerun_is_noop_witness:
  "load_json (files example_world) (locations example_args) = Inr [Some example_url]
   \<and> nsite example_args < int (length [Some example_url])
   \<and> py_index [Some example_url] (nsite example_args) = Inr (Some example_url)
   \<and> main example_lib example_args example_world = Some (Inr example_written)
   \<and> locations example_args \<noteq> ofile_of example_url
   \<and> isfile (files example_written) (ofile_of example_url)
   \<and> main example_lib example_args (example_written\<lparr> today := 19001 * day \<rparr>)
       = Some (Inr (example_written\<lparr> today := 19001 * day,
            console := console example_written @ [Msg_out_exists (ofile_of example_url)] \<rparr>))
   \<and> main example_lib example_args example_written
       = Some (Inr (example_written\<lparr>
            console := console example_written @ [Msg_out_exists (ofile_of example_url)] \<rparr>))"
proof -
  note first = rerun_is_noop [OF example_prelude(1-3), of example_lib]
  note again = rerun_is_noop [OF example_written_prelude(1) example_prelude(2,3), of example_lib]
  have a: "main example_lib example_args (example_written\<lparr> today := 19001 * day \<rparr>)
       = Some (Inr (example_written\<lparr> today := 19001 * day,
            console := console example_written @ [Msg_out_exists (ofile_of example_url)] \<rparr>))"
    using first example_main example_written_prelude(2,4) by simp
  have b: "main example_lib example_args example_written
       = Some (Inr (example_written\<lparr>
            console := console example_written @ [Msg_out_exists (ofile_of example_url)] \<rparr>))"
    using again example_written_prelude(2,3) by simp
  show ?thesis
    using a b example_prelude(1-3) example_main example_written_prelude(3,4) by simp
qed

section \<open>The paths and the cache\<close>

text \<open>
  C9: the chm and met paths are the template \<^verbatim>\<open>cf_template\<close> formatted with the date
  rounded to the hour, a whole hour at most half an hour away, with \<^verbatim>\<open><col>\<close> replaced by
  the name of the collection; the pbl path is the template \<^verbatim>\<open>pbl_template\<close> formatted
  with the date itself. For each of the three, when the path is the one cached in
  \<^verbatim>\<open>fnl\<close> the dataset cached in \<^verbatim>\<open>dsl\<close> is used and nothing is opened; otherwise
  the file, being there, is opened and takes the place of the cached path and dataset.
\<close>

theorem collections_resolved:
  assumes "spec_resolve fs fnl dsl ''chm''
             (replace_all ''<col>'' ''chm'' (strftime L (round_H (date r)) (cf_template a)))
           = Some dsc"
    and "spec_resolve fs fnl dsl ''met''
             (replace_all ''<col>'' ''met'' (strftime L (round_H (date r)) (cf_template a)))
           = Some dsm"
    and "spec_resolve fs fnl dsl ''pbl'' (strftime L (date r) (pbl_template a)) = Some dsp"
  shows "open_collections L fs a r fnl dsl
         = Inr (Some (dsc, dsm, dsp),
                fnl(''chm'' \<mapsto> replace_all ''<col>'' ''chm''
                                (strftime L (round_H (date r)) (cf_template a)),
                    ''met'' \<mapsto> replace_all ''<col>'' ''met''
                                (strftime L (round_H (date r)) (cf_template a)),
                    ''pbl'' \<mapsto> strftime L (date r) (pbl_template a)),
                dsl(''chm'' \<mapsto> dsc, ''met'' \<mapsto> dsm, ''pbl'' \<mapsto> dsp),
                spec_io fnl ''chm''
                    (replace_all ''<col>'' ''chm'' (strftime L (round_H (date r)) (cf_template a)))
                @ spec_io fnl ''met''
                    (replace_all ''<col>'' ''met'' (strftime L (round_H (date r)) (cf_template a)))
                @ spec_io fnl ''pbl'' (strftime L (date r) (pbl_template a)))
         \<and> round_H (date r) mod hour = 0 \<and> \<bar>round_H (date r) - date r\<bar> \<le> hour div 2"
  using open_collections_spec [OF refl refl refl assms] round_H_nearest [of "date r"] by simp

text \<open>
  C9, the theorem at the example files with the chm file cached: the met and the pbl
  file are opened, the chm file is not.
\<close>

theorem collections_resolved_witness:
  "spec_resolve example_files [''chm'' \<mapsto> ''cf_chm.nc''] [''chm'' \<mapsto> example_chm] ''chm''
       (replace_all ''<col>'' ''chm''
          (strftime example_lib (round_H (date example_row)) (cf_template example_args)))
     = Some example_chm
   \<and> spec_resolve example_files [''chm'' \<mapsto> ''cf_chm.nc''] [''chm'' \<mapsto> example_chm] ''met''
       (replace_all ''<col>'' ''met''
          (strftime example_lib (round_H (date example_row)) (cf_template example_args)))
     = Some example_met
   \<and> spec_resolve example_files [''chm'' \<mapsto> ''cf_chm.nc''] [''chm'' \<mapsto> example_chm] ''pbl''
       (strftime example_lib (date example_row) (pbl_template example_args))
     = Some example_pbl
   \<and> open_collections example_lib example_files example_args example_row
        [''chm'' \<mapsto> ''cf_chm.nc''] [''chm'' \<mapsto> example_chm]
     = Inr (Some (example_chm, example_met, example_pbl), example_fnl, example_dsl,
            [Msg_reading ''cf_met.nc'', Io_open_dataset ''cf_met.nc'',
             Msg_reading ''pbl.nc'', Io_open_dataset ''pbl.nc''])"
proof -
  have c: "spec_resolve example_files [''chm'' \<mapsto> ''cf_chm.nc''] [''chm'' \<mapsto> example_chm] ''chm''
       (replace_all ''<col>'' ''chm''
          (strftime example_lib (round_H (date example_row)) (cf_template example_args)))
     = Some example_chm"
    unfolding example_paths by (simp add: spec_resolve_def)
  have m: "spec_resolve example_files [''chm'' \<mapsto> ''cf_chm.nc''] [''chm'' \<mapsto> example_chm] ''met''
       (replace_all ''<col>'' ''met''
          (strftime example_lib (round_H (date example_row)) (cf_template example_args)))
     = Some example_met"
    unfolding example_paths by (simp add: spec_resolve_def example_files_def)
  have p: "spec_resolve example_files [''chm'' \<mapsto> ''cf_chm.nc''] [''chm'' \<mapsto> example_chm] ''pbl''
       (strftime example_lib (date example_row) (pbl_template example_args))
     = Some example_pbl"
    unfolding example_paths by (simp add: spec_resolve_def example_files_def)
  have "open_collections example_lib example_files example_args example_row
        [''chm'' \<mapsto> ''cf_chm.nc''] [''chm'' \<mapsto> example_chm]
     = Inr (Some (example_chm, example_met, example_pbl), example_fnl, example_dsl,
            [Msg_reading ''cf_met.nc'', Io_open_dataset ''cf_met.nc'',
             Msg_reading ''pbl.nc'', Io_open_dataset ''pbl.nc''])"
    using collections_resolved [OF c m p]
    unfolding example_paths
    by (simp add: spec_io_def example_fnl_def example_dsl_def)
  then show ?thesis using c m p by simp
qed

section \<open>The quality flag\<close>

text \<open>
  C10: take two lists of records that differ, record by record, at most in the quality
  flag. The selection of lines 59 to 61 keeps or drops each record of the one list as
  it does its partner in the other. The loop of lines 71 to 80 ends with the same
  exception for both lists, or returns for both the same derived values, messages and
  files opened, the rows differing only in the flag they carry. And when the two lists
  are what \<^verbatim>\<open>_read_pandora\<close> reads from two observation files, the run on the one file
  fails, skips or writes as the run on the other does, printing the same, and the table
  it writes is the other's with the flags of its own records. \<^verbatim>\<open>_match_cf\<close> returns
  the same whatever the flag of the record; the flag is read from field 52 of the line
  and stands unchanged in the written row.
\<close>

theorem quality_flag_not_used:
  assumes "list_all2 differ_only_in_flag rs rs'"
  shows "list_all2 (\<lambda>r r'. select_rows m [r'] = [] \<longleftrightarrow> select_rows m [r] = []) rs rs'
   \<and> list_all2 differ_only_in_flag (select_rows m rs) (select_rows m rs')
   \<and> populate L fs a la lo rs' fnl dsl
       = (case populate L fs a la lo rs fnl dsl of
            Inl e \<Rightarrow> Inl e
          | Inr (ms, ev) \<Rightarrow> Inr (with_flags_of ms rs', ev))
   \<and> (load_json (files w) (locations a) = Inr locs \<and> nsite a < int (length locs)
        \<and> py_index locs (nsite a) = Inr (Some url)
        \<and> read_pandora L (files w) (ifile_of url) = Some (Inr (rs, la, lo, evs))
        \<and> read_pandora L ((files w)(ifile_of url \<mapsto> Text ls')) (ifile_of url)
            = Some (Inr (rs', la, lo, evs))
       \<longrightarrow> main L a (w\<lparr> files := (files w)(ifile_of url \<mapsto> Text ls') \<rparr>)
           = map_option (map_sum id (\<lambda>w1. w1\<lparr> files := (files w1)
               (ifile_of url \<mapsto> Text ls',
                ofile_of url \<mapsto>
                  (if isfile (files w) (ofile_of url) then the (files w (ofile_of url))
                   else Csv (with_flags_of (written_rows w1 (ofile_of url))
                               (select_rows (maxdate_of (today w)) rs')))) \<rparr>))
             (main L a w))
   \<and> (\<forall>r v. match_cf L fs a (r\<lparr> pandora_no2_qval := v \<rparr>) la lo fnl dsl
              = match_cf L fs a r la lo fnl dsl)
   \<and> (\<forall>r mv. pandora_no2_qval (merged_row r mv la lo) = pandora_no2_qval r)
   \<and> (\<forall>s r0. parse_row L s = Inr r0
         \<longrightarrow> py_int L (split_on CHR '' '' s ! 52) = Some (pandora_no2_qval r0))"
proof (intro conjI allI impI)
  show "list_all2 (\<lambda>r r'. select_rows m [r'] = [] \<longleftrightarrow> select_rows m [r] = []) rs rs'"
    using assms
  proof (rule list_all2_mono)
    fix r r' :: row
    assume "differ_only_in_flag r r'"
    then show "select_rows m [r'] = [] \<longleftrightarrow> select_rows m [r] = []"
      by (simp add: select_rows_def differ_fields)
  qed
  show "list_all2 differ_only_in_flag (select_rows m rs) (select_rows m rs')"
    using assms by (rule select_rows_flag)
  show "populate L fs a la lo rs' fnl dsl
       = (case populate L fs a la lo rs fnl dsl of
            Inl e \<Rightarrow> Inl e
          | Inr (ms, ev) \<Rightarrow> Inr (with_flags_of ms rs', ev))"
    using assms by (rule populate_flag)
next
  assume h: "load_json (files w) (locations a) = Inr locs \<and> nsite a < int (length locs)
        \<and> py_index locs (nsite a) = Inr (Some url)
        \<and> read_pandora L (files w) (ifile_of url) = Some (Inr (rs, la, lo, evs))
        \<and> read_pandora L ((files w)(ifile_of url \<mapsto> Text ls')) (ifile_of url)
            = Some (Inr (rs', la, lo, evs))"
  show "main L a (w\<lparr> files := (files w)(ifile_of url \<mapsto> Text ls') \<rparr>)
           = map_option (map_sum id (\<lambda>w1. w1\<lparr> files := (files w1)
               (ifile_of url \<mapsto> Text ls',
                ofile_of url \<mapsto>
                  (if isfile (files w) (ofile_of url) then the (files w (ofile_of url))
                   else Csv (with_flags_of (written_rows w1 (ofile_of url))
                               (select_rows (maxdate_of (today w)) rs')))) \<rparr>))
             (main L a w)"
    by (rule main_flag [OF h [THEN conjunct1] h [THEN conjunct2, THEN conjunct1]
          h [THEN conjunct2, THEN conjunct2, THEN conjunct1]
          h [THEN conjunct2, THEN conjunct2, THEN conjunct2, THEN conjunct1]
          h [THEN conjunct2, THEN conjunct2, THEN conjunct2, THEN conjunct2] assms])
next
  fix r v
  show "match_cf L fs a (r\<lparr> pandora_no2_qval := v \<rparr>) la lo fnl dsl = match_cf L fs a r la lo fnl dsl"
    by (rule match_cf_qval)
next
  fix r mv
  show "pandora_no2_qval (merged_row r mv la lo) = pandora_no2_qval r"
    by (cases mv) (simp add: merged_row_def)
next
  fix s r0
  assume "parse_row L s = Inr r0"
  then show "py_int L (split_on CHR '' '' s ! 52) = Some (pandora_no2_qval r0)"
    by (rule parse_row_qval)
qed

text \<open>
  C10, the theorem at the example run and at the run on the same file with flag 0, not
  10, in its first record: the written row holds the same values and the flag 0.
\<close>

theorem quality_flag_not_used_witness:
  "list_all2 differ_only_in_flag [example_row, example_row_old, example_row_high]
     [example_row\<lparr> pandora_no2_qval := 0 \<rparr>, example_row_old, example_row_high]
   \<and> read_pandora example_lib (files example_world) (ifile_of example_url)
      = Some (Inr ([example_row, example_row_old, example_row_high], 38.9, - 77,
                [Msg_reading ''obs/P1.txt'', Io_read_obs ''obs/P1.txt'',
                 Msg_latitude 38.9, Msg_longitude (- 77)]))
   \<and> read_pandora example_lib
        ((files example_world)(ifile_of example_url \<mapsto> Text example_obs_flagged))
        (ifile_of example_url)
      = Some (Inr ([example_row\<lparr> pandora_no2_qval := 0 \<rparr>, example_row_old, example_row_high],
                38.9, - 77,
                [Msg_reading ''obs/P1.txt'', Io_read_obs ''obs/P1.txt'',
                 Msg_latitude 38.9, Msg_longitude (- 77)]))
   \<and> parse_row example_lib (obs_line ''20210101T000000.0z'' ''10'' ''1.0e-7'' ''0.12'' ''1.0e-4'')
     = Inr example_row
   \<and> py_int example_lib
        (split_on CHR '' '' (obs_line ''20210101T000000.0z'' ''10'' ''1.0e-7'' ''0.12'' ''1.0e-4'') ! 52)
       = Some (pandora_no2_qval example_row)
   \<and> main example_lib example_args example_world = Some (Inr example_written)
   \<and> main example_lib example_args example_world_flagged
       = Some (Inr (example_written\<lparr> files := (files example_written)
            (''obs/P1.txt'' \<mapsto> Text example_obs_flagged,
             ''merged_csv/P1+GEOSCF.csv'' \<mapsto>
               Csv [(merged_row example_row example_values 38.9 (- 77))
                      \<lparr> pandora_no2_qval := 0 \<rparr>]) \<rparr>))"
proof -
  note t = quality_flag_not_used [OF example_flagged_rows,
      where L = example_lib and a = example_args and w = example_world
        and locs = "[Some example_url]" and url = example_url and la = "38.9" and lo = "- 77"
        and ls' = example_obs_flagged
        and evs = "[Msg_reading ''obs/P1.txt'', Io_read_obs ''obs/P1.txt'',
                 Msg_latitude 38.9, Msg_longitude (- 77)]"]
  have p: "py_int example_lib
        (split_on CHR '' '' (obs_line ''20210101T000000.0z'' ''10'' ''1.0e-7'' ''0.12'' ''1.0e-4'') ! 52)
       = Some (pandora_no2_qval example_row)"
    using t parse_example_1 by blast
  have m: "main example_lib example_args
        (example_world\<lparr> files := (files example_world)(ifile_of example_url \<mapsto> Text example_obs_flagged) \<rparr>)
      = map_option (map_sum id (\<lambda>w1. w1\<lparr> files := (files w1)
               (ifile_of example_url \<mapsto> Text example_obs_flagged,
                ofile_of example_url \<mapsto>
                  (if isfile (files example_world) (ofile_of example_url)
                   then the (files example_world (ofile_of example_url))
                   else Csv (with_flags_of (written_rows w1 (ofile_of example_url))
                               (select_rows (maxdate_of (today example_world))
                                  [example_row\<lparr> pandora_no2_qval := 0 \<rparr>, example_row_old,
                                   example_row_high])))) \<rparr>))
             (main example_lib example_args example_world)"
    using t example_prelude(1-3) example_read_pandora_world example_read_pandora_flagged by blast
  have td: "today example_world = 19000 * day + 5 * hour" by (simp add: example_world_def)
  have wr: "written_rows example_written (ofile_of example_url)
      = [merged_row example_row example_values 38.9 (- 77)]"
    by (simp add: written_rows_def example_written_def example_names)
  have wf: "example_world\<lparr> files := (files example_world)(ifile_of example_url \<mapsto> Text example_obs_flagged) \<rparr>
      = example_world_flagged"
    by (simp add: example_world_flagged_def example_world_def example_names)
  have "main example_lib example_args example_world_flagged
       = Some (Inr (example_written\<lparr> files := (files example_written)
            (''obs/P1.txt'' \<mapsto> Text example_obs_flagged,
             ''merged_csv/P1+GEOSCF.csv'' \<mapsto>
               Csv [(merged_row example_row example_values 38.9 (- 77))
                      \<lparr> pandora_no2_qval := 0 \<rparr>]) \<rparr>))"
    using m example_prelude(5)
    unfolding wf example_main td example_select_rows_flagged
    by (simp add: wr [unfolded example_names] with_flags_of_def example_names)
  then show ?thesis
    using example_flagged_rows example_read_pandora_world example_read_pandora_flagged
      parse_example_1 p example_main by simp
qed

end
